theory Spec2Isabelle
  imports Main
begin

section \<open>JavaScript values\<close>

text \<open>
  Option keys, labels and titles and the \<open>value\<close> prop of the Select component are
  untyped JavaScript values. Numbers are modelled as integers (no NaN); \<open>===\<close> on keys is
  HOL equality, which is what JavaScript computes on primitives (the declared type of a
  key is \<open>string\<close>).
\<close>

datatype jsval =
    JUndefined
  | JNull
  | JBool bool
  | JNum int
  | JStr string
  | JArr "jsval list"
  | JObj "(string \<times> jsval) list"

datatype error = TypeError

text \<open>Truthiness, as used by \<open>||\<close>, \<open>&&\<close> and \<open>!\<close>.\<close>

fun truthy :: "jsval \<Rightarrow> bool" where
  "truthy JUndefined = False"
| "truthy JNull = False"
| "truthy (JBool b) = b"
| "truthy (JNum n) = (n \<noteq> 0)"
| "truthy (JStr s) = (s \<noteq> [])"
| "truthy (JArr xs) = True"
| "truthy (JObj fs) = True"

definition js_or :: "jsval \<Rightarrow> jsval \<Rightarrow> jsval" where
  "js_or a b = (if truthy a then a else b)"

text \<open>
  \<open>Object.prototype.toString.call(value).slice(8, -1).toLowerCase()\<close>
\<close>

fun valueTypeOf :: "jsval \<Rightarrow> string" where
  "valueTypeOf JUndefined = ''undefined''"
| "valueTypeOf JNull = ''null''"
| "valueTypeOf (JBool b) = ''boolean''"
| "valueTypeOf (JNum n) = ''number''"
| "valueTypeOf (JStr s) = ''string''"
| "valueTypeOf (JArr xs) = ''array''"
| "valueTypeOf (JObj fs) = ''object''"

text \<open>
  Reading one of the properties \<open>key\<close>, \<open>label\<close>, \<open>title\<close> of a value: a TypeError on
  \<open>undefined\<close> and \<open>null\<close>, the field of an object, and \<open>undefined\<close> on every other value
  (no primitive wrapper and no array has a property of one of these three names).
\<close>

fun getProp :: "jsval \<Rightarrow> string \<Rightarrow> error + jsval" where
  "getProp JUndefined n = Inl TypeError"
| "getProp JNull n = Inl TypeError"
| "getProp (JObj fs) n = Inr (case map_of fs n of None \<Rightarrow> JUndefined | Some v \<Rightarrow> v)"
| "getProp v n = Inr JUndefined"

text \<open>\<open>Array.prototype.findIndex\<close>: the first index that satisfies the predicate, or -1.\<close>

fun findIndex :: "('a \<Rightarrow> bool) \<Rightarrow> 'a list \<Rightarrow> int" where
  "findIndex P [] = - 1"
| "findIndex P (x # xs) =
     (if P x then 0
      else (let i = findIndex P xs in if i = - 1 then - 1 else i + 1))"

text \<open>
  \<open>Array.prototype.slice(start, end)\<close> and \<open>slice(start)\<close>: a negative index counts from
  the end, and both indices are clamped to the array.
\<close>

definition relIndex :: "nat \<Rightarrow> int \<Rightarrow> nat" where
  "relIndex n i = (if i < 0 then nat (max (int n + i) 0) else nat (min i (int n)))"

definition slice :: "'a list \<Rightarrow> int \<Rightarrow> int \<Rightarrow> 'a list" where
  "slice xs start fin =
     (let k = relIndex (length xs) start; f = relIndex (length xs) fin
      in take (f - k) (drop k xs))"

definition sliceFrom :: "'a list \<Rightarrow> int \<Rightarrow> 'a list" where
  "sliceFrom xs start = drop (relIndex (length xs) start) xs"

section \<open>The data model of Select\<close>

text \<open>\<open>type SelectValue = { key; label; title }\<close>, also the shape of a catalog entry.\<close>

record SelectValue =
  key :: jsval
  label :: jsval
  title :: jsval

text \<open>
  The declarative children: an \<open>Option\<close> element with its props, an \<open>OptGroup\<close> element
  with its children (and the \<open>_isShow\<close> prop a filtered clone carries), or anything else.
\<close>

record OptionProps =
  opt_value :: "jsval option"
  opt_key :: jsval
  opt_children :: jsval
  opt_title :: jsval
  opt_disabled :: bool

datatype node =
    OptionNode OptionProps
  | OptGroupNode "bool option" "node list"
  | OtherNode

datatype mode = Single | Multiple

datatype filterOption =
    FilterFun "string \<Rightarrow> OptionProps \<Rightarrow> bool"
  | FilterBool bool
  | FilterOther

record SelectProps =
  children :: "node list"
  mode :: mode
  labelInValue :: bool
  defaultActiveFirstOption :: bool
  filterOption :: filterOption
  esc :: bool
  filterInactiveOption :: bool
  value_prop :: "jsval option"
  defaultValue :: "jsval option"
  visible :: bool

record SelectState =
  searchValue :: string
  selectValue :: "SelectValue list"
  selectValueForMultiplePanel :: "SelectValue list"
  popupVisible :: bool
  activeKey :: jsval

text \<open>The notifications to the host, in the order the handlers fire them.\<close>

datatype changeArg =
    NoArg
  | ArgKey jsval
  | ArgObj SelectValue
  | ArgKeys "jsval list"
  | ArgObjs "SelectValue list"

datatype notification =
    OnChange changeArg
  | OnSelect SelectValue
  | OnDeselect SelectValue
  | OnSearch string
  | OnVisibleChange bool

text \<open>
  Modelled from the spec: the \<open>KeyCode\<close> table of \<open>utils\<close> is not part of the sources; its
  four entries the keyboard handler compares with are taken as distinct codes.
\<close>

datatype keyCode = ESC | ENTER | UP | DOWN | OtherKey

section \<open>Option resolution\<close>

text \<open>\<open>child => !child.props.disabled\<close>\<close>

definition notDisabled :: "OptionProps \<Rightarrow> bool" where
  "notDisabled c = (\<not> opt_disabled c)"

definition selectOption :: "OptionProps \<Rightarrow> SelectValue" where
  "selectOption c =
     \<lparr>key = (case opt_value c of Some v \<Rightarrow> v | None \<Rightarrow> opt_key c),
      label = opt_children c,
      title = opt_title c\<rparr>"

fun getOptionFromChild ::
    "node \<Rightarrow> SelectValue list \<Rightarrow> (OptionProps \<Rightarrow> bool) option \<Rightarrow> SelectValue list"
  and getOptionFromChildren ::
    "node list \<Rightarrow> SelectValue list \<Rightarrow> (OptionProps \<Rightarrow> bool) option \<Rightarrow> SelectValue list"
where
  "getOptionFromChild (OptionNode c) plainOptionList flt =
     (case flt of
        Some f \<Rightarrow> (if f c then plainOptionList @ [selectOption c] else plainOptionList)
      | None \<Rightarrow> plainOptionList @ [selectOption c])"
| "getOptionFromChild (OptGroupNode sh cs) plainOptionList flt =
     getOptionFromChildren cs plainOptionList flt"
| "getOptionFromChild OtherNode plainOptionList flt = plainOptionList"
| "getOptionFromChildren [] plainOptionList flt = plainOptionList"
| "getOptionFromChildren (c # cs) plainOptionList flt =
     getOptionFromChildren cs (getOptionFromChild c plainOptionList flt) flt"

section \<open>Search filtering\<close>

fun getFilteredChild :: "SelectProps \<Rightarrow> SelectState \<Rightarrow> node \<Rightarrow> node list \<Rightarrow> node list"
  and getFilteredChildren ::
    "SelectProps \<Rightarrow> SelectState \<Rightarrow> node list \<Rightarrow> node list \<Rightarrow> node list"
where
  "getFilteredChild p this (OptionNode c) ChildrenList =
     (let filterFlag =
        (case filterOption p of
           FilterFun f \<Rightarrow> f (searchValue this) c
         | FilterBool b \<Rightarrow> b
         | FilterOther \<Rightarrow> False)
      in if filterFlag then ChildrenList @ [OptionNode c] else ChildrenList)"
| "getFilteredChild p this (OptGroupNode sh cs) ChildrenList =
     (let filtered = getFilteredChildren p this cs []
      in ChildrenList @ [OptGroupNode (Some (filtered \<noteq> [])) filtered])"
| "getFilteredChild p this OtherNode ChildrenList = ChildrenList"
| "getFilteredChildren p this [] ChildrenList = ChildrenList"
| "getFilteredChildren p this (c # cs) ChildrenList =
     getFilteredChildren p this cs (getFilteredChild p this c ChildrenList)"

section \<open>Value normalization\<close>

text \<open>
  The callback of \<open>value.map\<close> when \<open>labelInValue\<close> is false: the label and the title
  come from the catalog, \<open>optionList.find(...) || {}\<close> giving \<open>undefined\<close> fields when
  the key does not resolve.
\<close>

definition foundLabel :: "SelectValue option \<Rightarrow> jsval" where
  "foundLabel opt = (case opt of Some option \<Rightarrow> label option | None \<Rightarrow> JUndefined)"

definition foundTitle :: "SelectValue option \<Rightarrow> jsval" where
  "foundTitle opt = (case opt of Some option \<Rightarrow> title option | None \<Rightarrow> JUndefined)"

definition resolveKey :: "SelectValue list \<Rightarrow> jsval \<Rightarrow> SelectValue" where
  "resolveKey optionList k =
     (let option = find (\<lambda>option. key option = k) optionList
      in \<lparr>key = k, label = js_or (foundLabel option) k, title = foundTitle option\<rparr>)"

text \<open>
  The callback when \<open>labelInValue\<close> is true: the label and the title the value carries
  come first. Reading a property of \<open>undefined\<close> or \<open>null\<close> throws.
\<close>

definition resolveObj :: "SelectValue list \<Rightarrow> jsval \<Rightarrow> error + SelectValue" where
  "resolveObj optionList obj =
     (case getProp obj ''key'' of
        Inl e \<Rightarrow> Inl e
      | Inr k \<Rightarrow>
         (case getProp obj ''label'' of
            Inl e \<Rightarrow> Inl e
          | Inr objLabel \<Rightarrow>
             (case getProp obj ''title'' of
                Inl e \<Rightarrow> Inl e
              | Inr objTitle \<Rightarrow>
                 (let option = find (\<lambda>option. key option = k) optionList
                  in Inr \<lparr>key = k,
                          label = js_or (js_or objLabel (foundLabel option)) k,
                          title = js_or objTitle (foundTitle option)\<rparr>))))"

fun mapE :: "('a \<Rightarrow> error + 'b) \<Rightarrow> 'a list \<Rightarrow> error + 'b list" where
  "mapE f [] = Inr []"
| "mapE f (x # xs) =
     (case f x of
        Inl e \<Rightarrow> Inl e
      | Inr y \<Rightarrow> (case mapE f xs of Inl e \<Rightarrow> Inl e | Inr ys \<Rightarrow> Inr (y # ys)))"

text \<open>
  \<open>static getValueFromProps = (value, labelInValue, children)\<close>. When \<open>labelInValue\<close> is
  false, a truthy value that is no array has no \<open>map\<close> method, and the call throws.
\<close>

definition getValueFromProps :: "jsval \<Rightarrow> bool \<Rightarrow> node list \<Rightarrow> error + SelectValue list" where
  "getValueFromProps v labelInVal childs =
     (let valueType = valueTypeOf v;
          optionList = getOptionFromChildren childs [] None
      in if labelInVal then
           (if valueType = ''array'' then
              (case v of JArr objs \<Rightarrow> mapE (resolveObj optionList) objs | _ \<Rightarrow> Inr [])
            else if valueType = ''object'' then
              (case resolveObj optionList v of Inl e \<Rightarrow> Inl e | Inr x \<Rightarrow> Inr [x])
            else Inr [])
         else
           (let v' = (if valueType = ''string'' \<or> valueType = ''number'' then JArr [v] else v)
            in if truthy v' then
                 (case v' of
                    JArr ks \<Rightarrow> Inr (map (resolveKey optionList) ks)
                  | _ \<Rightarrow> Inl TypeError)
               else Inr []))"

text \<open>The constructor: the state a mounted component starts from.\<close>

definition initialState :: "SelectProps \<Rightarrow> error + SelectState" where
  "initialState p =
     (let initialValue =
        (case value_prop p of
           Some v \<Rightarrow> v
         | None \<Rightarrow> (case defaultValue p of Some d \<Rightarrow> d | None \<Rightarrow> JArr []))
      in case getValueFromProps initialValue (labelInValue p) (children p) of
           Inl e \<Rightarrow> Inl e
         | Inr initialSelectValue \<Rightarrow>
             Inr \<lparr>searchValue = [],
                  selectValue = initialSelectValue,
                  selectValueForMultiplePanel = initialSelectValue,
                  popupVisible = visible p,
                  activeKey = JUndefined\<rparr>)"

section \<open>The handlers\<close>

text \<open>
  A handler reads \<open>this.state\<close> as it is when the handler starts (the parameter \<open>this\<close>),
  merges its \<open>setState\<close> calls in order into the next state, and fires notifications.
  Focus and scroll requests to the DOM are not part of the state and are left out.
\<close>

type_synonym outcome = "SelectState \<times> notification list"

definition changeVisibleState :: "SelectProps \<Rightarrow> SelectState \<Rightarrow> bool \<Rightarrow> outcome \<Rightarrow> outcome" where
  "changeVisibleState p this vis acc =
     (let st = fst acc; out = snd acc @ [OnVisibleChange vis];
          changed = st\<lparr>popupVisible := vis\<rparr>
      in if vis then
           (let options = getOptionFromChildren (children p) [] (Some notDisabled);
                changed1 =
                  (if defaultActiveFirstOption p then
                     changed\<lparr>activeKey :=
                       (case options of [] \<Rightarrow> JUndefined | firstOption # rest \<Rightarrow> key firstOption)\<rparr>
                   else changed);
                changed2 =
                  (if mode p = Single \<and> length (selectValue this) > 0 then
                     changed1\<lparr>activeKey := key (selectValue this ! 0)\<rparr>
                   else changed1)
            in (changed2, out))
         else (changed\<lparr>activeKey := JUndefined\<rparr>, out))"

definition updateSearchValue :: "SelectProps \<Rightarrow> SelectState \<Rightarrow> string \<Rightarrow> outcome" where
  "updateSearchValue p this sv = (this\<lparr>searchValue := sv\<rparr>, [OnSearch sv])"

definition emptySearchValue :: "SelectProps \<Rightarrow> SelectState \<Rightarrow> outcome" where
  "emptySearchValue p this = (this\<lparr>searchValue := []\<rparr>, [OnSearch []])"

definition isSelectAll :: "SelectProps \<Rightarrow> SelectState \<Rightarrow> bool \<Rightarrow> bool" where
  "isSelectAll p this isMultiplePanel =
     (let optionList = getOptionFromChildren (children p) [] (Some notDisabled)
      in if isMultiplePanel then
           optionList \<noteq> [] \<and>
           list_all (\<lambda>selected.
               find (\<lambda>option. key option = key selected) (selectValueForMultiplePanel this) \<noteq> None)
             optionList
         else
           list_all (\<lambda>selected.
               find (\<lambda>option. key option = key selected) (selectValue this) \<noteq> None)
             optionList)"

definition selectAllOption :: "SelectProps \<Rightarrow> SelectState \<Rightarrow> outcome" where
  "selectAllOption p this =
     (this\<lparr>selectValue :=
        (if isSelectAll p this False then []
         else getOptionFromChildren (children p) [] (Some notDisabled))\<rparr>, [])"

definition emptySelectValue :: "SelectProps \<Rightarrow> SelectState \<Rightarrow> outcome" where
  "emptySelectValue p this =
     (let r = changeVisibleState p this False (this, [])
      in ((fst r)\<lparr>selectValue := []\<rparr>, snd r @ [OnChange NoArg]))"

definition visibleChangeFromTrigger :: "SelectProps \<Rightarrow> SelectState \<Rightarrow> bool \<Rightarrow> outcome" where
  "visibleChangeFromTrigger p this vis =
     (let st = (if \<not> vis \<and> mode p = Multiple
                then this\<lparr>selectValue := selectValueForMultiplePanel this\<rparr>
                else this)
      in changeVisibleState p this vis (st, []))"

definition onOptionClick :: "SelectProps \<Rightarrow> SelectState \<Rightarrow> SelectValue \<Rightarrow> bool \<Rightarrow> outcome" where
  "onOptionClick p this obj clickLabelClose =
     (let index = findIndex (\<lambda>selected. key selected = key obj) (selectValue this);
          isSelected = (index \<ge> 0);
          r1 =
            (if mode p = Single then
               (let r = changeVisibleState p this False (this, [])
                in ((fst r)\<lparr>selectValue := [obj]\<rparr>,
                    if \<not> isSelected then
                      snd r @ [OnChange (if labelInValue p then ArgObj obj else ArgKey (key obj))]
                    else snd r))
             else (this, []))
      in if mode p = Multiple then
           (if clickLabelClose then
              (let panel = selectValueForMultiplePanel this;
                   indexInMultiple = findIndex (\<lambda>selected. key selected = key obj) panel;
                   firstValue = slice panel 0 indexInMultiple;
                   restValues = sliceFrom panel (indexInMultiple + 1);
                   changedValue = firstValue @ restValues
               in ((fst r1)\<lparr>selectValue := changedValue,
                              selectValueForMultiplePanel := changedValue\<rparr>,
                   snd r1 @
                     [OnDeselect obj,
                      OnChange (if labelInValue p then ArgObjs changedValue
                                else ArgKeys (map key changedValue))]))
            else
              (let changedValue =
                     (if isSelected then
                        slice (selectValue this) 0 index @ sliceFrom (selectValue this) (index + 1)
                      else selectValue this @ [obj])
               in ((fst r1)\<lparr>selectValue := changedValue\<rparr>,
                   snd r1 @ [if isSelected then OnDeselect obj else OnSelect obj])))
         else r1)"

definition handleCancelSelect :: "SelectProps \<Rightarrow> SelectState \<Rightarrow> outcome" where
  "handleCancelSelect p this =
     (let r = changeVisibleState p this False (this, [])
      in ((fst r)\<lparr>selectValue := selectValueForMultiplePanel this\<rparr>, snd r))"

definition handleConfirmSelect :: "SelectProps \<Rightarrow> SelectState \<Rightarrow> outcome" where
  "handleConfirmSelect p this =
     (let r = changeVisibleState p this False (this, []);
          st = (fst r)\<lparr>selectValueForMultiplePanel := selectValue this\<rparr>;
          outputSelectedValue =
            (if filterInactiveOption p then
               (let optionList = getOptionFromChildren (children p) [] (Some notDisabled)
                in filter (\<lambda>item. find (\<lambda>option. key option = key item) optionList \<noteq> None)
                     (selectValue this))
             else selectValue this)
      in (st, snd r @
            [OnChange (if labelInValue p then ArgObjs outputSelectedValue
                       else ArgKeys (map key outputSelectedValue))]))"

text \<open>The Enter branch of the keyboard handler, on a non-empty \<open>optionList\<close>.\<close>

definition enterKey :: "SelectProps \<Rightarrow> SelectState \<Rightarrow> SelectValue list \<Rightarrow> outcome" where
  "enterKey p this optionList =
     (let activeTabIndex = findIndex (\<lambda>option. key option = activeKey this) optionList
      in if activeTabIndex \<noteq> - 1 then
           (if find (\<lambda>selected. key selected = activeKey this) (selectValue this) = None then
              (if mode p = Single then
                 (let r = changeVisibleState p this False (this, []);
                      st = (fst r)\<lparr>selectValue := [optionList ! nat activeTabIndex],
                                    activeKey := JUndefined\<rparr>
                  in (st, snd r @
                        [OnChange (if labelInValue p then ArgObj (selectValue st ! 0)
                                   else ArgKey (map key (selectValue st) ! 0))]))
               else if mode p = Multiple then
                 (this\<lparr>selectValue := selectValue this @ [optionList ! nat activeTabIndex]\<rparr>, [])
               else (this, []))
            else (this, []))
         else (this, []))"

text \<open>The ArrowUp / ArrowDown branch, on a non-empty \<open>optionList\<close>.\<close>

definition arrowKey :: "SelectState \<Rightarrow> keyCode \<Rightarrow> SelectValue list \<Rightarrow> outcome" where
  "arrowKey this kc optionList =
     (let optionListLen = int (length optionList)
      in if activeKey this \<noteq> JUndefined then
           (let activeTabIndex = findIndex (\<lambda>option. key option = activeKey this) optionList
            in if activeTabIndex = - 1 then
                 (this\<lparr>activeKey := key (optionList ! 0)\<rparr>, [])
               else
                 (let nextIndex =
                        (if kc = UP then
                           (if activeTabIndex = 0 then optionListLen - 1 else activeTabIndex - 1)
                         else if kc = DOWN then
                           (if activeTabIndex + 1 = optionListLen then 0 else activeTabIndex + 1)
                         else 0)
                  in (this\<lparr>activeKey := key (optionList ! nat nextIndex)\<rparr>, [])))
         else (this\<lparr>activeKey := key (optionList ! 0)\<rparr>, []))"

text \<open>
  The list the keyboard handler works on: the children that pass the search filter,
  flattened, without the disabled options.
\<close>

definition keyboardOptionList :: "SelectProps \<Rightarrow> SelectState \<Rightarrow> SelectValue list" where
  "keyboardOptionList p this =
     (let filteredList = getFilteredChildren p this (children p) []
      in getOptionFromChildren filteredList [] (Some notDisabled))"

definition handleKeyboardEvent :: "SelectProps \<Rightarrow> SelectState \<Rightarrow> keyCode \<Rightarrow> outcome" where
  "handleKeyboardEvent p this kc =
     (if kc = ESC \<and> esc p then changeVisibleState p this False (this, [])
      else if kc = ENTER \<or> kc = UP \<or> kc = DOWN then
        (let optionList = keyboardOptionList p this;
             optionListLen = length optionList
         in if optionListLen = 0 then (this, [])
            else if kc = ENTER then enterKey p this optionList
            else if kc = UP \<or> kc = DOWN then arrowKey this kc optionList
            else (this, []))
      else (this, []))"

section \<open>The component as a transition system\<close>

text \<open>
  The user interactions the dropdown and the trigger wire to the handlers above: a click
  on an option or on the close icon of a tag, a key press on the panel, typing in and
  clearing the search box, the trigger reporting that the popup opens or closes, and the
  select-all, clear, cancel and confirm items. The props stay fixed along a run; a change
  of the \<open>value\<close> or \<open>visible\<close> prop by the host is not an action here.
\<close>

datatype action =
    OptionClick SelectValue bool
  | KeyDown keyCode
  | SearchInput string
  | ClearSearch
  | TriggerVisible bool
  | SelectAll
  | ClearSingle
  | Cancel
  | Confirm

fun step :: "SelectProps \<Rightarrow> SelectState \<Rightarrow> action \<Rightarrow> outcome" where
  "step p this (OptionClick obj clickLabelClose) = onOptionClick p this obj clickLabelClose"
| "step p this (KeyDown kc) = handleKeyboardEvent p this kc"
| "step p this (SearchInput sv) = updateSearchValue p this sv"
| "step p this ClearSearch = emptySearchValue p this"
| "step p this (TriggerVisible vis) = visibleChangeFromTrigger p this vis"
| "step p this SelectAll = selectAllOption p this"
| "step p this ClearSingle = emptySelectValue p this"
| "step p this Cancel = handleCancelSelect p this"
| "step p this Confirm = handleConfirmSelect p this"

fun run :: "SelectProps \<Rightarrow> SelectState \<Rightarrow> action list \<Rightarrow> SelectState" where
  "run p this [] = this"
| "run p this (a # as) = run p (fst (step p this a)) as"

section \<open>Notions of the specification\<close>

text \<open>
  The specification speaks of the flat option catalog, of the options that pass the
  search filter, and of an option being removed from a selection in place. These are
  defined here in the specification's words and related to the code below.
\<close>

text \<open>All \<open>Option\<close> elements of a children tree, in source order, groups flattened.\<close>

fun optionsOfNode :: "node \<Rightarrow> OptionProps list"
  and optionsOf :: "node list \<Rightarrow> OptionProps list"
where
  "optionsOfNode (OptionNode c) = [c]"
| "optionsOfNode (OptGroupNode sh cs) = optionsOf cs"
| "optionsOfNode OtherNode = []"
| "optionsOf [] = []"
| "optionsOf (c # cs) = optionsOfNode c @ optionsOf cs"

text \<open>An option is taken by the optional filter of \<open>getOptionFromChildren\<close>.\<close>

definition accepts :: "(OptionProps \<Rightarrow> bool) option \<Rightarrow> OptionProps \<Rightarrow> bool" where
  "accepts flt c = (case flt of Some f \<Rightarrow> f c | None \<Rightarrow> True)"

text \<open>An option passes the search filter of the current search text.\<close>

definition passesSearch :: "SelectProps \<Rightarrow> SelectState \<Rightarrow> OptionProps \<Rightarrow> bool" where
  "passesSearch p this c =
     (case filterOption p of
        FilterFun f \<Rightarrow> f (searchValue this) c
      | FilterBool b \<Rightarrow> b
      | FilterOther \<Rightarrow> False)"

text \<open>The live catalog of non-disabled options, whatever the search text.\<close>

definition nonDisabledCatalog :: "SelectProps \<Rightarrow> SelectValue list" where
  "nonDisabledCatalog p =
     map selectOption (filter (\<lambda>c. \<not> opt_disabled c) (optionsOf (children p)))"

text \<open>The keys a change notification carries.\<close>

fun argKeys :: "changeArg \<Rightarrow> jsval list" where
  "argKeys NoArg = []"
| "argKeys (ArgKey k) = [k]"
| "argKeys (ArgObj v) = [key v]"
| "argKeys (ArgKeys ks) = ks"
| "argKeys (ArgObjs vs) = map key vs"

text \<open>Removal in place: the first entry with the key goes, the others keep their order.\<close>

fun removeFirstKey :: "jsval \<Rightarrow> SelectValue list \<Rightarrow> SelectValue list" where
  "removeFirstKey k [] = []"
| "removeFirstKey k (x # xs) = (if key x = k then xs else x # removeFirstKey k xs)"

text \<open>
  A key resolves to the option at position \<open>i\<close> of a list: the option there has the key
  and no earlier option has it.
\<close>

definition resolvesAt :: "jsval \<Rightarrow> SelectValue list \<Rightarrow> nat \<Rightarrow> bool" where
  "resolvesAt k optionList i =
     (i < length optionList \<and> key (optionList ! i) = k \<and>
      list_all (\<lambda>option. key option \<noteq> k) (take i optionList))"

text \<open>
  The invariant the data model asks of ActiveKey: absent, or the key of an option of the
  filtered, non-disabled list.
\<close>

definition activeKeyListed :: "SelectProps \<Rightarrow> SelectState \<Rightarrow> bool" where
  "activeKeyListed p this =
     (activeKey this = JUndefined \<or> activeKey this \<in> key ` set (keyboardOptionList p this))"

text \<open>The actions that neither change the search text nor open the popup.\<close>

fun keepsFilter :: "action \<Rightarrow> bool" where
  "keepsFilter (SearchInput sv) = False"
| "keepsFilter ClearSearch = False"
| "keepsFilter (TriggerVisible vis) = (\<not> vis)"
| "keepsFilter a = True"

text \<open>The field of an object, \<open>undefined\<close> when the object does not have it.\<close>

definition field :: "(string \<times> jsval) list \<Rightarrow> string \<Rightarrow> jsval" where
  "field fs n = (case map_of fs n of None \<Rightarrow> JUndefined | Some v \<Rightarrow> v)"

text \<open>
  The external values whose shape fits \<open>labelInValue\<close>: without it a key, an array of keys
  or a falsy value; with it anything but an array that holds \<open>undefined\<close> or \<open>null\<close>.
\<close>

definition wellShaped :: "bool \<Rightarrow> jsval \<Rightarrow> bool" where
  "wellShaped labelInVal v =
     (if labelInVal then
        (case v of
           JArr objs \<Rightarrow> list_all (\<lambda>obj. obj \<noteq> JUndefined \<and> obj \<noteq> JNull) objs
         | _ \<Rightarrow> True)
      else
        (case v of JObj fs \<Rightarrow> False | JBool b \<Rightarrow> \<not> b | _ \<Rightarrow> True))"

text \<open>
  What opening the popup sets ActiveKey to: the key of the selected option in single mode
  with a selection, else the key of the first non-disabled option of the catalog under
  \<open>defaultActiveFirstOption\<close> (absent on an empty catalog), else what it was.
\<close>

definition openActiveKey :: "SelectProps \<Rightarrow> SelectState \<Rightarrow> jsval" where
  "openActiveKey p this =
     (if mode p = Single \<and> selectValue this \<noteq> [] then key (hd (selectValue this))
      else if defaultActiveFirstOption p then
        (case nonDisabledCatalog p of [] \<Rightarrow> JUndefined | firstOption # rest \<Rightarrow> key firstOption)
      else activeKey this)"

text \<open>Resolving a key against the catalog: the first entry with the key, if there is one.\<close>

fun lookupKey :: "jsval \<Rightarrow> SelectValue list \<Rightarrow> SelectValue option" where
  "lookupKey k [] = None"
| "lookupKey k (opt # rest) = (if key opt = k then Some opt else lookupKey k rest)"

text \<open>
  The entry of a raw key: label and title of the catalog entry it resolves to, the key
  standing in for a falsy label; the key as label and no title when it does not resolve.
\<close>

definition keyEntry :: "SelectValue list \<Rightarrow> jsval \<Rightarrow> SelectValue" where
  "keyEntry catalog k =
     (case lookupKey k catalog of
        None \<Rightarrow> \<lparr>key = k, label = k, title = JUndefined\<rparr>
      | Some opt \<Rightarrow>
          \<lparr>key = k, label = (if truthy (label opt) then label opt else k), title = title opt\<rparr>)"

text \<open>
  The entry of a label-carrying object: the label and title the object carries come
  first, then those of the catalog entry its key resolves to, then the key as label.
\<close>

definition objEntry :: "SelectValue list \<Rightarrow> (string \<times> jsval) list \<Rightarrow> SelectValue" where
  "objEntry catalog fs =
     (let k = field fs ''key'';
          carriedLabel = field fs ''label'';
          carriedTitle = field fs ''title''
      in case lookupKey k catalog of
           None \<Rightarrow>
             \<lparr>key = k,
              label = (if truthy carriedLabel then carriedLabel else k),
              title = (if truthy carriedTitle then carriedTitle else JUndefined)\<rparr>
         | Some opt \<Rightarrow>
             \<lparr>key = k,
              label = (if truthy carriedLabel then carriedLabel
                       else if truthy (label opt) then label opt else k),
              title = (if truthy carriedTitle then carriedTitle else title opt)\<rparr>)"

section \<open>A sample component\<close>

text \<open>
  Three options, the third disabled and the last two in a group, under the default props
  of the component; the inputs the theorems below are evaluated at.
\<close>

definition optA :: OptionProps where
  "optA = \<lparr>opt_value = Some (JStr ''a''), opt_key = JNull, opt_children = JStr ''Alpha'',
           opt_title = JStr ''first'', opt_disabled = False\<rparr>"

definition optB :: OptionProps where
  "optB = \<lparr>opt_value = Some (JStr ''b''), opt_key = JNull, opt_children = JStr ''Beta'',
           opt_title = JUndefined, opt_disabled = False\<rparr>"

definition optC :: OptionProps where
  "optC = \<lparr>opt_value = Some (JStr ''c''), opt_key = JNull, opt_children = JStr ''Gamma'',
           opt_title = JUndefined, opt_disabled = True\<rparr>"

definition selA :: SelectValue where
  "selA = \<lparr>key = JStr ''a'', label = JStr ''Alpha'', title = JStr ''first''\<rparr>"

definition selB :: SelectValue where
  "selB = \<lparr>key = JStr ''b'', label = JStr ''Beta'', title = JUndefined\<rparr>"

definition selC :: SelectValue where
  "selC = \<lparr>key = JStr ''c'', label = JStr ''Gamma'', title = JUndefined\<rparr>"

definition sampleChildren :: "node list" where
  "sampleChildren = [OptionNode optA, OptGroupNode None [OptionNode optB, OptionNode optC], OtherNode]"

definition singleProps :: SelectProps where
  "singleProps =
     \<lparr>children = sampleChildren, mode = Single, labelInValue = False,
      defaultActiveFirstOption = False, filterOption = FilterBool True, esc = True,
      filterInactiveOption = False, value_prop = None, defaultValue = None, visible = False\<rparr>"

definition multipleProps :: SelectProps where
  "multipleProps = singleProps\<lparr>mode := Multiple\<rparr>"

text \<open>A filter function: the label starts with the search text.\<close>

definition labelStartsWith :: "string \<Rightarrow> OptionProps \<Rightarrow> bool" where
  "labelStartsWith sv c =
     (case opt_children c of JStr l \<Rightarrow> take (length sv) l = sv | _ \<Rightarrow> False)"

definition openState :: "SelectValue list \<Rightarrow> SelectValue list \<Rightarrow> jsval \<Rightarrow> SelectState" where
  "openState sel panel active =
     \<lparr>searchValue = [], selectValue = sel, selectValueForMultiplePanel = panel,
      popupVisible = True, activeKey = active\<rparr>"

section \<open>Arrays: \<open>findIndex\<close>, \<open>find\<close> and \<open>slice\<close>\<close>

lemma findIndex_range:
  "findIndex P xs = - 1 \<or> (0 \<le> findIndex P xs \<and> findIndex P xs < int (length xs))"
  by (induction xs) (auto simp: Let_def)

lemma findIndex_neg_iff: "findIndex P xs = - 1 \<longleftrightarrow> (\<forall>x \<in> set xs. \<not> P x)"
proof (induction xs)
  case Nil
  show ?case by simp
next
  case (Cons a xs)
  have "findIndex P xs \<noteq> - 2" using findIndex_range[of P xs] by auto
  with Cons show ?case by (auto simp: Let_def)
qed

lemma findIndex_ge0_iff: "0 \<le> findIndex P xs \<longleftrightarrow> (\<exists>x \<in> set xs. P x)"
  using findIndex_range[of P xs] findIndex_neg_iff[of P xs] by auto

lemma findIndex_first:
  "i < length xs \<Longrightarrow> P (xs ! i) \<Longrightarrow> (\<forall>j < i. \<not> P (xs ! j)) \<Longrightarrow> findIndex P xs = int i"
proof (induction xs arbitrary: i)
  case Nil
  then show ?case by simp
next
  case (Cons a xs)
  show ?case
  proof (cases i)
    case 0
    with Cons.prems show ?thesis by simp
  next
    case (Suc k)
    with Cons.prems have na: "\<not> P a" by auto
    from Suc Cons.prems have "k < length xs" "P (xs ! k)" "\<forall>j < k. \<not> P (xs ! j)" by auto
    then have "findIndex P xs = int k" by (rule Cons.IH)
    with na Suc show ?thesis by (simp add: Let_def)
  qed
qed

lemma slice_take: "0 \<le> i \<Longrightarrow> slice xs 0 i = take (nat i) xs"
  by (auto simp: slice_def relIndex_def Let_def min_def)

lemma sliceFrom_drop: "0 \<le> i \<Longrightarrow> sliceFrom xs i = drop (nat i) xs"
  by (auto simp: sliceFrom_def relIndex_def min_def)

lemma key_mem_iff: "(k \<in> key ` set xs) = (\<exists>x \<in> set xs. key x = k)"
  by force

lemma find_key_iff: "(find (\<lambda>x. key x = k) xs \<noteq> None) = (k \<in> key ` set xs)"
  by (auto simp: find_None_iff)

lemma find_key_None_iff: "(find (\<lambda>x. key x = k) xs = None) = (k \<notin> key ` set xs)"
  by (auto simp: find_None_iff)

lemma findIndex_key_ge0: "(0 \<le> findIndex (\<lambda>x. key x = k) xs) = (k \<in> key ` set xs)"
  by (auto simp: findIndex_ge0_iff)

lemma take_drop_findIndex:
  "0 \<le> findIndex (\<lambda>x. key x = k) xs \<Longrightarrow>
   take (nat (findIndex (\<lambda>x. key x = k) xs)) xs @ drop (Suc (nat (findIndex (\<lambda>x. key x = k) xs))) xs
     = removeFirstKey k xs"
proof (induction xs)
  case Nil
  then show ?case by simp
next
  case (Cons a xs)
  show ?case
  proof (cases "key a = k")
    case True
    then show ?thesis by simp
  next
    case False
    with Cons.prems have ge: "0 \<le> findIndex (\<lambda>x. key x = k) xs"
      using findIndex_range[of "\<lambda>x. key x = k" xs] by (auto simp: Let_def split: if_splits)
    then have eq: "findIndex (\<lambda>x. key x = k) (a # xs) = findIndex (\<lambda>x. key x = k) xs + 1"
      using False by (simp add: Let_def)
    have n: "nat (findIndex (\<lambda>x. key x = k) xs + 1) = Suc (nat (findIndex (\<lambda>x. key x = k) xs))"
      using ge by simp
    show ?thesis unfolding eq n using Cons.IH[OF ge] False by simp
  qed
qed

lemma splice_removeFirstKey:
  assumes "k \<in> key ` set xs"
  shows "slice xs 0 (findIndex (\<lambda>x. key x = k) xs) @ sliceFrom xs (findIndex (\<lambda>x. key x = k) xs + 1)
           = removeFirstKey k xs"
proof -
  have ge: "0 \<le> findIndex (\<lambda>x. key x = k) xs" using assms by (simp add: findIndex_key_ge0)
  then have "nat (findIndex (\<lambda>x. key x = k) xs + 1) = Suc (nat (findIndex (\<lambda>x. key x = k) xs))"
    by simp
  with ge show ?thesis
    by (simp add: slice_take sliceFrom_drop take_drop_findIndex)
qed

lemma removeFirstKey_snoc:
  "k \<notin> key ` set xs \<Longrightarrow> key x = k \<Longrightarrow> removeFirstKey k (xs @ [x]) = xs"
  by (induction xs) auto

lemma removeFirstKey_keys_subset: "key ` set (removeFirstKey k xs) \<subseteq> key ` set xs"
  by (induction xs) auto

lemma removeFirstKey_distinct:
  "distinct (map key xs) \<Longrightarrow> k \<notin> key ` set (removeFirstKey k xs)"
proof (induction xs)
  case Nil
  then show ?case by simp
next
  case (Cons a xs)
  then show ?case using removeFirstKey_keys_subset[of k xs] by auto
qed

lemma removeFirstKey_keys:
  "k \<in> key ` set xs \<Longrightarrow> insert k (key ` set (removeFirstKey k xs)) = key ` set xs"
  by (induction xs) auto

lemma resolvesAt_findIndex:
  assumes "resolvesAt k ol i"
  shows "findIndex (\<lambda>option. key option = k) ol = int i"
proof -
  from assms have i: "i < length ol" and k: "key (ol ! i) = k"
    and f: "\<forall>x \<in> set (take i ol). key x \<noteq> k"
    by (auto simp: resolvesAt_def list_all_iff)
  have "\<forall>j < i. key (ol ! j) \<noteq> k"
  proof (intro allI impI)
    fix j assume "j < i"
    with i have "take i ol ! j = ol ! j" "j < length (take i ol)" by simp_all
    then have "ol ! j \<in> set (take i ol)" by (metis nth_mem)
    with f show "key (ol ! j) \<noteq> k" by blast
  qed
  with i k show ?thesis by (intro findIndex_first) auto
qed

section \<open>The catalog the code computes is the flat catalog\<close>

lemma getOption_flat:
  "getOptionFromChild c acc flt = acc @ map selectOption (filter (accepts flt) (optionsOfNode c))"
  "getOptionFromChildren cs acc flt = acc @ map selectOption (filter (accepts flt) (optionsOf cs))"
  by (induction c acc flt and cs acc flt rule: getOptionFromChild_getOptionFromChildren.induct)
     (auto simp: accepts_def split: option.splits)

lemma optionsOf_append: "optionsOf (xs @ ys) = optionsOf xs @ optionsOf ys"
  by (induction xs) auto

lemma getFiltered_flat:
  "optionsOf (getFilteredChild p this c acc) = optionsOf acc @ filter (passesSearch p this) (optionsOfNode c)"
  "optionsOf (getFilteredChildren p this cs acc) = optionsOf acc @ filter (passesSearch p this) (optionsOf cs)"
  by (induction p this c acc and p this cs acc rule: getFilteredChild_getFilteredChildren.induct)
     (auto simp: optionsOf_append passesSearch_def Let_def)

lemma keyboardOptionList_flat:
  "keyboardOptionList p this =
     map selectOption (filter (\<lambda>c. passesSearch p this c \<and> \<not> opt_disabled c) (optionsOf (children p)))"
  by (simp add: keyboardOptionList_def getOption_flat getFiltered_flat accepts_def notDisabled_def
      conj_commute)

lemma accepts_Some: "accepts (Some f) = f"
  by (simp add: fun_eq_iff accepts_def)

lemma notDisabled_eq: "notDisabled = (\<lambda>c. \<not> opt_disabled c)"
  by (simp add: fun_eq_iff notDisabled_def)

lemma catalog_flat:
  "getOptionFromChildren (children p) [] (Some notDisabled) = nonDisabledCatalog p"
  by (simp add: getOption_flat accepts_Some nonDisabledCatalog_def notDisabled_eq)

lemma allOptions_flat: "getOptionFromChildren cs [] None = map selectOption (optionsOf cs)"
  by (simp add: getOption_flat accepts_def)

lemma passesSearch_cong:
  "searchValue s' = searchValue s \<Longrightarrow> passesSearch p s' = passesSearch p s"
  unfolding fun_eq_iff passesSearch_def by (simp split: filterOption.splits)

lemma keyboardOptionList_cong:
  "searchValue s' = searchValue s \<Longrightarrow> keyboardOptionList p s' = keyboardOptionList p s"
  using passesSearch_cong[of s' s p] by (simp add: keyboardOptionList_flat)

section \<open>What each handler returns\<close>

lemma changeVisibleState_close:
  "changeVisibleState p this False (st, out) =
     (st\<lparr>popupVisible := False, activeKey := JUndefined\<rparr>, out @ [OnVisibleChange False])"
  by (simp add: changeVisibleState_def)

lemma onOptionClick_single:
  assumes "mode p = Single"
  shows "onOptionClick p s X c =
           (s\<lparr>popupVisible := False, activeKey := JUndefined, selectValue := [X]\<rparr>,
            OnVisibleChange False #
              (if key X \<in> key ` set (selectValue s) then []
               else [OnChange (if labelInValue p then ArgObj X else ArgKey (key X))]))"
proof -
  from assms show ?thesis
    by (simp add: onOptionClick_def changeVisibleState_close Let_def findIndex_key_ge0)
qed

lemma onOptionClick_multiple:
  assumes "mode p = Multiple"
  shows "onOptionClick p s X False =
           (s\<lparr>selectValue :=
               (if key X \<in> key ` set (selectValue s) then removeFirstKey (key X) (selectValue s)
                else selectValue s @ [X])\<rparr>,
            [if key X \<in> key ` set (selectValue s) then OnDeselect X else OnSelect X])"
  using assms
  by (simp add: onOptionClick_def Let_def findIndex_key_ge0 splice_removeFirstKey)

lemma handleConfirmSelect_result:
  "handleConfirmSelect p s =
     (s\<lparr>popupVisible := False, activeKey := JUndefined,
        selectValueForMultiplePanel := selectValue s\<rparr>,
      [OnVisibleChange False,
       OnChange
         (let final =
            (if filterInactiveOption p then
               filter (\<lambda>item. key item \<in> key ` set (nonDisabledCatalog p)) (selectValue s)
             else selectValue s)
          in if labelInValue p then ArgObjs final else ArgKeys (map key final))])"
proof -
  show ?thesis
    by (simp add: handleConfirmSelect_def changeVisibleState_close Let_def catalog_flat find_key_iff
        del: not_None_eq)
qed

lemma cancel_restores:
  "handleCancelSelect p s =
     (s\<lparr>popupVisible := False, activeKey := JUndefined,
        selectValue := selectValueForMultiplePanel s\<rparr>, [OnVisibleChange False])"
  by (simp add: handleCancelSelect_def changeVisibleState_close Let_def)

lemma trigger_close_restores:
  "mode p = Multiple \<Longrightarrow>
   visibleChangeFromTrigger p s False =
     (s\<lparr>selectValue := selectValueForMultiplePanel s,
        popupVisible := False, activeKey := JUndefined\<rparr>, [OnVisibleChange False])"
  by (simp add: visibleChangeFromTrigger_def changeVisibleState_close Let_def)

lemma escape_closes:
  "esc p \<Longrightarrow> handleKeyboardEvent p s ESC =
     (s\<lparr>popupVisible := False, activeKey := JUndefined\<rparr>, [OnVisibleChange False])"
  by (simp add: handleKeyboardEvent_def changeVisibleState_close)




lemma arrowKey_result:
  assumes "ol \<noteq> []"
  shows "\<exists>j < length ol. arrowKey s kc ol = (s\<lparr>activeKey := key (ol ! j)\<rparr>, [])"
proof -
  define i where "i = findIndex (\<lambda>option. key option = activeKey s) ol"
  define n where "n = int (length ol)"
  define nextIndex where "nextIndex =
     (if kc = UP then (if i = 0 then n - 1 else i - 1)
      else if kc = DOWN then (if i + 1 = n then 0 else i + 1) else 0)"
  from assms have len: "0 < length ol" by simp
  show ?thesis
  proof (cases "activeKey s = JUndefined \<or> i = - 1")
    case True
    then have "arrowKey s kc ol = (s\<lparr>activeKey := key (ol ! 0)\<rparr>, [])"
      unfolding i_def by (auto simp: arrowKey_def Let_def)
    with len show ?thesis by blast
  next
    case False
    then have r: "0 \<le> i" "i < n"
      using findIndex_range[of "\<lambda>option. key option = activeKey s" ol]
      unfolding i_def n_def by auto
    have "0 < n" using len by (simp add: n_def)
    with r have "0 \<le> nextIndex \<and> nextIndex < n" unfolding nextIndex_def by auto
    then have "nat nextIndex < length ol" unfolding n_def by linarith
    moreover have "arrowKey s kc ol = (s\<lparr>activeKey := key (ol ! nat nextIndex)\<rparr>, [])"
      using False unfolding nextIndex_def i_def n_def by (simp add: arrowKey_def Let_def)
    ultimately show ?thesis by blast
  qed
qed

lemma enterKey_result:
  "searchValue (fst (enterKey p s ol)) = searchValue s \<and>
   (activeKey (fst (enterKey p s ol)) = activeKey s \<or> activeKey (fst (enterKey p s ol)) = JUndefined)"
  by (simp add: enterKey_def Let_def changeVisibleState_close)

lemma arrow_listed:
  assumes "keyboardOptionList p s \<noteq> []" and "kc = UP \<or> kc = DOWN"
  shows "activeKey (fst (handleKeyboardEvent p s kc)) \<in> key ` set (keyboardOptionList p s) \<and>
         keyboardOptionList p (fst (handleKeyboardEvent p s kc)) = keyboardOptionList p s"
proof -
  have hk: "handleKeyboardEvent p s kc = arrowKey s kc (keyboardOptionList p s)"
    using assms by (auto simp: handleKeyboardEvent_def Let_def)
  from arrowKey_result[OF assms(1), of s kc] obtain j where
    j: "j < length (keyboardOptionList p s)"
    and a: "arrowKey s kc (keyboardOptionList p s) = (s\<lparr>activeKey := key (keyboardOptionList p s ! j)\<rparr>, [])"
    by blast
  have "keyboardOptionList p (s\<lparr>activeKey := key (keyboardOptionList p s ! j)\<rparr>) = keyboardOptionList p s"
    by (rule keyboardOptionList_cong) simp
  with j show ?thesis unfolding hk a by simp
qed

lemma keyboard_other:
  assumes "\<not> (keyboardOptionList p s \<noteq> [] \<and> (kc = UP \<or> kc = DOWN))"
  shows "searchValue (fst (handleKeyboardEvent p s kc)) = searchValue s \<and>
        (activeKey (fst (handleKeyboardEvent p s kc)) = activeKey s \<or>
         activeKey (fst (handleKeyboardEvent p s kc)) = JUndefined)"
proof (cases "kc = ESC \<and> esc p")
  case True
  then show ?thesis by (simp add: handleKeyboardEvent_def changeVisibleState_close)
next
  case False
  show ?thesis
  proof (cases "keyboardOptionList p s = []")
    case True
    with False show ?thesis by (auto simp: handleKeyboardEvent_def Let_def)
  next
    case ne: False
    with assms have k: "kc \<noteq> UP" "kc \<noteq> DOWN" by auto
    show ?thesis
    proof (cases "kc = ENTER")
      case True
      with False ne have "handleKeyboardEvent p s kc = enterKey p s (keyboardOptionList p s)"
        by (auto simp: handleKeyboardEvent_def Let_def)
      then show ?thesis using enterKey_result[of p s "keyboardOptionList p s"] by simp
    next
      case nk: False
      with False k have "handleKeyboardEvent p s kc = (s, [])"
        by (auto simp: handleKeyboardEvent_def Let_def)
      then show ?thesis by simp
    qed
  qed
qed

lemma listed_step:
  assumes "activeKeyListed p s" and "searchValue s' = searchValue s"
    and "activeKey s' = activeKey s \<or> activeKey s' = JUndefined"
  shows "activeKeyListed p s'"
  using assms unfolding activeKeyListed_def keyboardOptionList_cong[OF assms(2), of p] by metis

lemma keyboard_listed:
  assumes "activeKeyListed p s"
  shows "activeKeyListed p (fst (handleKeyboardEvent p s kc))"
proof (cases "keyboardOptionList p s \<noteq> [] \<and> (kc = UP \<or> kc = DOWN)")
  case True
  then show ?thesis using arrow_listed[of p s kc] by (simp add: activeKeyListed_def)
next
  case False
  from keyboard_other[OF False] show ?thesis using listed_step[OF assms] by blast
qed

lemma click_listed:
  assumes "activeKeyListed p s"
  shows "activeKeyListed p (fst (onOptionClick p s obj c))"
proof -
  have "searchValue (fst (onOptionClick p s obj c)) = searchValue s \<and>
        (activeKey (fst (onOptionClick p s obj c)) = activeKey s \<or>
         activeKey (fst (onOptionClick p s obj c)) = JUndefined)"
    by (cases "mode p") (simp_all add: onOptionClick_def Let_def changeVisibleState_close)
  then show ?thesis using listed_step[OF assms] by blast
qed

section \<open>Value normalization returns\<close>

lemma getProp_defined:
  "obj \<noteq> JUndefined \<Longrightarrow> obj \<noteq> JNull \<Longrightarrow> \<exists>v. getProp obj n = Inr v"
  by (cases obj) auto

lemma resolveObj_defined:
  assumes "obj \<noteq> JUndefined" "obj \<noteq> JNull"
  shows "\<exists>x. resolveObj ol obj = Inr x"
proof -
  from getProp_defined[OF assms] obtain a b c where
    "getProp obj ''key'' = Inr a" "getProp obj ''label'' = Inr b" "getProp obj ''title'' = Inr c"
    by metis
  then show ?thesis by (simp add: resolveObj_def Let_def)
qed

lemma mapE_defined:
  "list_all (\<lambda>obj. obj \<noteq> JUndefined \<and> obj \<noteq> JNull) objs \<Longrightarrow> \<exists>ys. mapE (resolveObj ol) objs = Inr ys"
proof (induction objs)
  case Nil
  then show ?case by simp
next
  case (Cons a objs)
  then obtain ys where ys: "mapE (resolveObj ol) objs = Inr ys" by auto
  from Cons.prems resolveObj_defined[of a ol] obtain y where "resolveObj ol a = Inr y" by auto
  with ys show ?case by simp
qed

lemma resolveObj_JObj:
  "resolveObj ol (JObj fs) =
     Inr \<lparr>key = field fs ''key'',
          label = js_or (js_or (field fs ''label'')
                    (foundLabel (find (\<lambda>option. key option = field fs ''key'') ol))) (field fs ''key''),
          title = js_or (field fs ''title'')
                    (foundTitle (find (\<lambda>option. key option = field fs ''key'') ol))\<rparr>"
  by (simp add: resolveObj_def field_def Let_def)

lemma normalize_total:
  assumes "wellShaped liv v"
  shows "\<exists>sel. getValueFromProps v liv cs = Inr sel"
proof (cases liv)
  case True
  show ?thesis
  proof (cases v)
    case (JArr objs)
    with True assms have "list_all (\<lambda>obj. obj \<noteq> JUndefined \<and> obj \<noteq> JNull) objs"
      by (simp add: wellShaped_def)
    from mapE_defined[OF this] JArr True show ?thesis
      by (simp add: getValueFromProps_def Let_def)
  next
    case (JObj fs)
    with True show ?thesis by (simp add: getValueFromProps_def Let_def resolveObj_JObj)
  qed (simp_all add: True getValueFromProps_def Let_def)
next
  case False
  with assms show ?thesis
    by (cases v) (simp_all add: getValueFromProps_def Let_def wellShaped_def)
qed

lemma normalize_keys:
  "getValueFromProps (JArr ks) False cs = Inr (map (resolveKey (map selectOption (optionsOf cs))) ks)"
  by (simp add: getValueFromProps_def Let_def allOptions_flat)

lemma key_resolveKey: "map key (map (resolveKey ol) ks) = ks"
  by (induction ks) (simp_all add: resolveKey_def Let_def)

section \<open>Stale active keys, opening, and the entries of normalization\<close>

lemma trigger_open:
  "visibleChangeFromTrigger p s True =
     (s\<lparr>popupVisible := True, activeKey := openActiveKey p s\<rparr>, [OnVisibleChange True])"
  by (cases "selectValue s")
     (simp_all add: visibleChangeFromTrigger_def changeVisibleState_def catalog_flat
       openActiveKey_def Let_def)

lemma findIndex_key_absent:
  "k \<notin> key ` set xs \<Longrightarrow> findIndex (\<lambda>x. key x = k) xs = - 1"
  by (auto simp: findIndex_neg_iff)

lemma enter_stale:
  assumes "activeKey s \<notin> key ` set (keyboardOptionList p s)"
  shows "handleKeyboardEvent p s ENTER = (s, [])"
  using findIndex_key_absent[OF assms]
  by (simp add: handleKeyboardEvent_def enterKey_def Let_def)

lemma arrow_stale:
  assumes "keyboardOptionList p s \<noteq> []"
    and "activeKey s \<notin> key ` set (keyboardOptionList p s)"
    and "kc = UP \<or> kc = DOWN"
  shows "handleKeyboardEvent p s kc = (s\<lparr>activeKey := key (hd (keyboardOptionList p s))\<rparr>, [])"
proof -
  have hk: "handleKeyboardEvent p s kc = arrowKey s kc (keyboardOptionList p s)"
    using assms(1,3) by (auto simp: handleKeyboardEvent_def Let_def)
  show ?thesis
    unfolding hk using findIndex_key_absent[OF assms(2)] assms(1)
    by (simp add: arrowKey_def Let_def hd_conv_nth)
qed

lemma lookupKey_find: "lookupKey k xs = find (\<lambda>option. key option = k) xs"
  by (induction xs) auto

lemma resolveKey_keyEntry: "resolveKey ol k = keyEntry ol k"
  by (simp add: resolveKey_def keyEntry_def lookupKey_find foundLabel_def foundTitle_def
      js_or_def Let_def split: option.splits)

lemma resolveObj_objEntry: "resolveObj ol (JObj fs) = Inr (objEntry ol fs)"
  by (simp add: resolveObj_JObj objEntry_def lookupKey_find foundLabel_def foundTitle_def
      js_or_def Let_def split: option.splits)

lemma mapE_objects: "mapE (resolveObj ol) (map JObj fss) = Inr (map (objEntry ol) fss)"
  by (induction fss) (simp_all add: resolveObj_objEntry)

lemma normalize_key_array:
  "getValueFromProps (JArr ks) False cs = Inr (map (keyEntry (map selectOption (optionsOf cs))) ks)"
  unfolding normalize_keys by (simp add: resolveKey_keyEntry)

lemma normalize_scalar:
  "(\<exists>t. v = JStr t) \<or> (\<exists>n. v = JNum n) \<Longrightarrow>
     getValueFromProps v False cs = Inr [keyEntry (map selectOption (optionsOf cs)) v]"
  by (auto simp: getValueFromProps_def Let_def allOptions_flat resolveKey_keyEntry)

lemma normalize_absent:
  "v = JUndefined \<or> v = JNull \<or> v = JBool False \<Longrightarrow> getValueFromProps v False cs = Inr []"
  by (auto simp: getValueFromProps_def Let_def)

lemma normalize_object_array:
  "getValueFromProps (JArr (map JObj fss)) True cs =
     Inr (map (objEntry (map selectOption (optionsOf cs))) fss)"
  by (simp add: getValueFromProps_def Let_def allOptions_flat mapE_objects)

lemma normalize_object:
  "getValueFromProps (JObj fs) True cs = Inr [objEntry (map selectOption (optionsOf cs)) fs]"
  by (simp add: getValueFromProps_def Let_def allOptions_flat resolveObj_objEntry)

lemma normalize_other:
  "valueTypeOf v \<noteq> ''array'' \<Longrightarrow> valueTypeOf v \<noteq> ''object'' \<Longrightarrow>
     getValueFromProps v True cs = Inr []"
  by (simp add: getValueFromProps_def Let_def)

section \<open>Selection by option click\<close>

text \<open>
  Claim C1. In single mode, a click on an option \<open>X\<close> sets the committed selection to
  exactly \<open>[X]\<close>, closes the popup, and fires \<open>onChange\<close> if and only if the key of \<open>X\<close>
  was not selected already, with the raw key when \<open>labelInValue\<close> is false and with the
  key/label/title object when it is true.
\<close>

theorem single_option_click:
  assumes "mode p = Single" and "r = onOptionClick p s X c"
  shows "selectValue (fst r) = [X] \<and>
         popupVisible (fst r) = False \<and>
         fst r = s\<lparr>popupVisible := False, activeKey := JUndefined, selectValue := [X]\<rparr> \<and>
         snd r = OnVisibleChange False #
           (if key X \<in> key ` set (selectValue s) then []
            else [OnChange (if labelInValue p then ArgObj X else ArgKey (key X))])"
  unfolding assms(2) onOptionClick_single[OF assms(1)] by simp

text \<open>The theorem at the sample component: a new option, with and without
  \<open>labelInValue\<close>, and the option that is selected already.\<close>

theorem single_option_click_witness:
  "mode singleProps = Single \<and>
   onOptionClick singleProps (openState [selA] [] JUndefined) selB False =
     (\<lparr>searchValue = [], selectValue = [selB], selectValueForMultiplePanel = [],
       popupVisible = False, activeKey = JUndefined\<rparr>,
      [OnVisibleChange False, OnChange (ArgKey (JStr ''b''))]) \<and>
   onOptionClick (singleProps\<lparr>labelInValue := True\<rparr>) (openState [selA] [] JUndefined) selB False =
     (\<lparr>searchValue = [], selectValue = [selB], selectValueForMultiplePanel = [],
       popupVisible = False, activeKey = JUndefined\<rparr>,
      [OnVisibleChange False, OnChange (ArgObj selB)]) \<and>
   onOptionClick singleProps (openState [selA] [] JUndefined) selA False =
     (\<lparr>searchValue = [], selectValue = [selA], selectValueForMultiplePanel = [],
       popupVisible = False, activeKey = JUndefined\<rparr>,
      [OnVisibleChange False])"
  using single_option_click[of singleProps _ "openState [selA] [] JUndefined" selB False, OF _ refl]
    single_option_click[of "singleProps\<lparr>labelInValue := True\<rparr>" _ "openState [selA] [] JUndefined" selB False, OF _ refl]
    single_option_click[of singleProps _ "openState [selA] [] JUndefined" selA False, OF _ refl]
  by (simp add: singleProps_def openState_def selA_def selB_def prod_eq_iff)

text \<open>
  Claim C2, as the code has it. In multiple mode, a click on an option toggles it: an
  absent option is appended at the end and \<open>onSelect\<close> fires, a present one is removed
  in place and \<open>onDeselect\<close> fires; the popup stays as it is and the pending selection
  is not touched. Two clicks on an option that was not selected restore the selection
  exactly. Two clicks on an option that was selected (in a selection without duplicate
  keys) leave the same set of selected keys, with the option moved to the end.
\<close>

theorem multiple_option_click:
  assumes "mode p = Multiple"
    and "r1 = onOptionClick p s X False"
    and "r2 = onOptionClick p (fst r1) X False"
  shows "fst r1 = s\<lparr>selectValue :=
               (if key X \<in> key ` set (selectValue s) then removeFirstKey (key X) (selectValue s)
                else selectValue s @ [X])\<rparr> \<and>
         snd r1 = [if key X \<in> key ` set (selectValue s) then OnDeselect X else OnSelect X] \<and>
         popupVisible (fst r1) = popupVisible s \<and>
         selectValueForMultiplePanel (fst r1) = selectValueForMultiplePanel s \<and>
         selectValueForMultiplePanel (fst r2) = selectValueForMultiplePanel s \<and>
         (key X \<notin> key ` set (selectValue s) \<longrightarrow> selectValue (fst r2) = selectValue s) \<and>
         (key X \<in> key ` set (selectValue s) \<and> distinct (map key (selectValue s)) \<longrightarrow>
            selectValue (fst r2) = removeFirstKey (key X) (selectValue s) @ [X] \<and>
            key ` set (selectValue (fst r2)) = key ` set (selectValue s))"
proof -
  note r1 = onOptionClick_multiple[OF assms(1), of s X]
  have a: "key X \<notin> key ` set (selectValue s) \<Longrightarrow> selectValue (fst r2) = selectValue s"
    unfolding assms(3) assms(2) r1
    by (simp add: onOptionClick_multiple[OF assms(1)] removeFirstKey_snoc)
  have b: "selectValue (fst r2) = removeFirstKey (key X) (selectValue s) @ [X]"
    if "key X \<in> key ` set (selectValue s)" "distinct (map key (selectValue s))"
    unfolding assms(3) assms(2) r1 using that removeFirstKey_distinct[OF that(2), of "key X"]
    by (simp add: onOptionClick_multiple[OF assms(1)])
  have c: "key ` set (removeFirstKey (key X) (selectValue s) @ [X]) = key ` set (selectValue s)"
    if "key X \<in> key ` set (selectValue s)"
    using removeFirstKey_keys[OF that] by simp
  show ?thesis
    using a b c unfolding assms(3) assms(2)
    by (simp add: onOptionClick_multiple[OF assms(1)])
qed

text \<open>The theorem at the sample component, for a selected and for an unselected option.\<close>

theorem multiple_option_click_witness:
  "mode multipleProps = Multiple \<and>
   distinct (map key [selA, selB]) \<and>
   fst (onOptionClick multipleProps (openState [selA, selB] [selB] JUndefined) selA False) =
     openState [selB] [selB] JUndefined \<and>
   snd (onOptionClick multipleProps (openState [selA, selB] [selB] JUndefined) selA False) =
     [OnDeselect selA] \<and>
   selectValue (fst (onOptionClick multipleProps
     (fst (onOptionClick multipleProps (openState [selA, selB] [selB] JUndefined) selA False))
     selA False)) = [selB, selA] \<and>
   fst (onOptionClick multipleProps (openState [selB] [selB] JUndefined) selA False) =
     openState [selB, selA] [selB] JUndefined \<and>
   snd (onOptionClick multipleProps (openState [selB] [selB] JUndefined) selA False) =
     [OnSelect selA] \<and>
   selectValue (fst (onOptionClick multipleProps
     (fst (onOptionClick multipleProps (openState [selB] [selB] JUndefined) selA False))
     selA False)) = [selB]"
  using multiple_option_click[of multipleProps _ "openState [selA, selB] [selB] JUndefined" selA, OF _ refl refl]
    multiple_option_click[of multipleProps _ "openState [selB] [selB] JUndefined" selA, OF _ refl refl]
  by (simp add: multipleProps_def singleProps_def openState_def selA_def selB_def
      onOptionClick_def slice_def sliceFrom_def relIndex_def Let_def)

text \<open>
  Two clicks on a selected option that is not the last one do not restore the sequence:
  from \<open>[A, B]\<close>, two clicks on \<open>A\<close> give \<open>[B, A]\<close>.
\<close>

theorem double_click_reorders:
  "mode multipleProps = Multiple \<and>
   selectValue (openState [selA, selB] [] JUndefined) = [selA, selB] \<and>
   selectValue (fst (onOptionClick multipleProps
      (fst (onOptionClick multipleProps (openState [selA, selB] [] JUndefined) selA False))
      selA False)) = [selB, selA] \<and>
   [selB, selA] \<noteq> [selA, selB]"
  by (simp add: onOptionClick_multiple multipleProps_def singleProps_def openState_def
      selA_def selB_def)

section \<open>Confirm, cancel and select all\<close>

text \<open>
  Claim C3. The confirm action copies the current selection into the pending selection,
  closes the popup and fires \<open>onChange\<close> with the final value; when
  \<open>filterInactiveOption\<close> is true, the value passed to \<open>onChange\<close> holds exactly the
  selections whose keys resolve against the live catalog of non-disabled options.
\<close>

theorem confirm_commits:
  assumes "r = handleConfirmSelect p s"
    and "final =
           (if filterInactiveOption p then
              filter (\<lambda>item. key item \<in> key ` set (nonDisabledCatalog p)) (selectValue s)
            else selectValue s)"
  shows "selectValueForMultiplePanel (fst r) = selectValue s \<and>
         popupVisible (fst r) = False \<and>
         fst r = s\<lparr>popupVisible := False, activeKey := JUndefined,
                   selectValueForMultiplePanel := selectValue s\<rparr> \<and>
         snd r = [OnVisibleChange False,
                  OnChange (if labelInValue p then ArgObjs final else ArgKeys (map key final))]"
  unfolding assms handleConfirmSelect_result by (simp add: Let_def)

text \<open>The theorem at the sample component, where option \<open>c\<close> is disabled: with the
  filter the change carries \<open>a\<close> alone, without it \<open>a\<close> and \<open>c\<close>.\<close>

theorem confirm_commits_witness:
  "handleConfirmSelect (multipleProps\<lparr>filterInactiveOption := True\<rparr>)
       (openState [selA, selC] [selB] JUndefined) =
     (\<lparr>searchValue = [], selectValue = [selA, selC],
       selectValueForMultiplePanel = [selA, selC],
       popupVisible = False, activeKey = JUndefined\<rparr>,
      [OnVisibleChange False, OnChange (ArgKeys [JStr ''a''])]) \<and>
   handleConfirmSelect multipleProps (openState [selA, selC] [selB] JUndefined) =
     (\<lparr>searchValue = [], selectValue = [selA, selC],
       selectValueForMultiplePanel = [selA, selC],
       popupVisible = False, activeKey = JUndefined\<rparr>,
      [OnVisibleChange False, OnChange (ArgKeys [JStr ''a'', JStr ''c''])])"
  using confirm_commits[of _ "multipleProps\<lparr>filterInactiveOption := True\<rparr>"
      "openState [selA, selC] [selB] JUndefined", OF refl refl]
    confirm_commits[of _ multipleProps "openState [selA, selC] [selB] JUndefined", OF refl refl]
  by (simp add: handleConfirmSelect_def changeVisibleState_def Let_def multipleProps_def
      singleProps_def sampleChildren_def optA_def optB_def optC_def openState_def
      selA_def selB_def selC_def notDisabled_def selectOption_def)

text \<open>
  Claim C10. After a confirm with \<open>filterInactiveOption\<close>, the stored state is not
  filtered: the pending selection is the whole selection, so a selection whose key does
  not resolve against the non-disabled catalog stays in both, although the value passed
  to \<open>onChange\<close> leaves it out.
\<close>

theorem confirm_state_unfiltered:
  assumes "filterInactiveOption p" and "r = handleConfirmSelect p s"
  shows "selectValueForMultiplePanel (fst r) = selectValue s \<and>
         selectValue (fst r) = selectValue s \<and>
         (\<exists>arg. snd r = [OnVisibleChange False, OnChange arg] \<and>
            set (argKeys arg) =
              {k \<in> key ` set (selectValue s). k \<in> key ` set (nonDisabledCatalog p)}) \<and>
         (\<forall>item \<in> set (selectValue s). key item \<notin> key ` set (nonDisabledCatalog p) \<longrightarrow>
            item \<in> set (selectValue (fst r)) \<and>
            item \<in> set (selectValueForMultiplePanel (fst r)))"
  using assms
  by (auto simp: handleConfirmSelect_result Let_def)

text \<open>The theorem at the sample component: the disabled \<open>c\<close> stays selected and pending,
  and the change carries \<open>a\<close> alone.\<close>

theorem confirm_state_unfiltered_witness:
  "filterInactiveOption (multipleProps\<lparr>filterInactiveOption := True\<rparr>) \<and>
   selC \<in> set [selA, selC] \<and>
   key selC \<notin> key ` set (nonDisabledCatalog (multipleProps\<lparr>filterInactiveOption := True\<rparr>)) \<and>
   selectValue (fst (handleConfirmSelect (multipleProps\<lparr>filterInactiveOption := True\<rparr>)
       (openState [selA, selC] [] JUndefined))) = [selA, selC] \<and>
   selectValueForMultiplePanel (fst (handleConfirmSelect (multipleProps\<lparr>filterInactiveOption := True\<rparr>)
       (openState [selA, selC] [] JUndefined))) = [selA, selC] \<and>
   snd (handleConfirmSelect (multipleProps\<lparr>filterInactiveOption := True\<rparr>)
       (openState [selA, selC] [] JUndefined)) = [OnVisibleChange False, OnChange (ArgKeys [JStr ''a''])]"
  using confirm_state_unfiltered[of "multipleProps\<lparr>filterInactiveOption := True\<rparr>" _
      "openState [selA, selC] [] JUndefined", OF _ refl]
  by (simp add: handleConfirmSelect_def changeVisibleState_def Let_def multipleProps_def
      singleProps_def sampleChildren_def optA_def optB_def optC_def openState_def
      selA_def selB_def selC_def notDisabled_def selectOption_def nonDisabledCatalog_def)

text \<open>
  Claim C9. The select-all toggle empties the selection when every non-disabled option
  of the catalog is selected already, and otherwise sets the selection to exactly the
  sequence of non-disabled options; a catalog that is empty or has only disabled options
  counts as all selected.
\<close>

theorem select_all_toggle:
  assumes "r = selectAllOption p s"
  shows "fst r = s\<lparr>selectValue :=
            (if key ` set (nonDisabledCatalog p) \<subseteq> key ` set (selectValue s) then []
             else nonDisabledCatalog p)\<rparr> \<and>
         snd r = []"
proof -
  have "list_all (\<lambda>selected. find (\<lambda>option. key option = key selected) (selectValue s) \<noteq> None)
          (nonDisabledCatalog p)
        = (key ` set (nonDisabledCatalog p) \<subseteq> key ` set (selectValue s))"
    by (auto simp: list_all_iff find_key_iff simp del: not_None_eq)
  then show ?thesis
    unfolding assms by (simp add: selectAllOption_def isSelectAll_def catalog_flat Let_def)
qed

text \<open>The theorem at the sample component, at a catalog of one disabled option and at the
  empty catalog.\<close>

theorem select_all_toggle_witness:
  "nonDisabledCatalog multipleProps = [selA, selB] \<and>
   selectAllOption multipleProps (openState [selA] [] JUndefined) =
     (openState [selA, selB] [] JUndefined, []) \<and>
   selectAllOption multipleProps (openState [selB, selC, selA] [] JUndefined) =
     (openState [] [] JUndefined, []) \<and>
   selectAllOption (multipleProps\<lparr>children := [OptionNode optC]\<rparr>) (openState [selA] [] JUndefined) =
     (openState [] [] JUndefined, []) \<and>
   selectAllOption (multipleProps\<lparr>children := []\<rparr>) (openState [] [] JUndefined) =
     (openState [] [] JUndefined, [])"
  using select_all_toggle[of _ multipleProps "openState [selA] [] JUndefined", OF refl]
    select_all_toggle[of _ multipleProps "openState [selB, selC, selA] [] JUndefined", OF refl]
    select_all_toggle[of _ "multipleProps\<lparr>children := [OptionNode optC]\<rparr>"
      "openState [selA] [] JUndefined", OF refl]
    select_all_toggle[of _ "multipleProps\<lparr>children := []\<rparr>" "openState [] [] JUndefined", OF refl]
  by (simp add: selectAllOption_def isSelectAll_def Let_def multipleProps_def
      singleProps_def sampleChildren_def optA_def optB_def optC_def openState_def
      selA_def selB_def selC_def notDisabled_def selectOption_def nonDisabledCatalog_def)

text \<open>
  Claim C4. Cancel and a close reported by the trigger restore the selection from the
  pending selection and fire no \<open>onChange\<close> (\<open>cancel_restores\<close>,
  \<open>trigger_close_restores\<close>). A close by the Escape key does not: in multiple mode,
  with \<open>A\<close> toggled on and nothing pending, Escape closes the popup and leaves \<open>A\<close>
  selected, where the trigger's close and the cancel button give back the empty selection.
\<close>

theorem escape_keeps_uncommitted:
  "mode multipleProps = Multiple \<and> esc multipleProps \<and>
   handleKeyboardEvent multipleProps (openState [selA] [] JUndefined) ESC =
     (\<lparr>searchValue = [], selectValue = [selA], selectValueForMultiplePanel = [],
       popupVisible = False, activeKey = JUndefined\<rparr>, [OnVisibleChange False]) \<and>
   visibleChangeFromTrigger multipleProps (openState [selA] [] JUndefined) False =
     (\<lparr>searchValue = [], selectValue = [], selectValueForMultiplePanel = [],
       popupVisible = False, activeKey = JUndefined\<rparr>, [OnVisibleChange False]) \<and>
   handleCancelSelect multipleProps (openState [selA] [] JUndefined) =
     (\<lparr>searchValue = [], selectValue = [], selectValueForMultiplePanel = [],
       popupVisible = False, activeKey = JUndefined\<rparr>, [OnVisibleChange False])"
  by (simp add: handleKeyboardEvent_def visibleChangeFromTrigger_def handleCancelSelect_def
      changeVisibleState_def Let_def multipleProps_def singleProps_def openState_def)

section \<open>Keyboard navigation\<close>



text \<open>
  Claim C6. When Enter is pressed and ActiveKey resolves to an option of the filtered,
  non-disabled list that is not selected: in single mode the selection becomes that one
  option, the popup closes and \<open>onChange\<close> fires; in multiple mode the option is appended
  to the selection, nothing fires and the popup stays open. When the active option is
  selected already, Enter changes nothing and fires nothing.
\<close>

theorem enter_key:
  assumes "ol = keyboardOptionList p s" and "resolvesAt (activeKey s) ol i"
  shows "(activeKey s \<notin> key ` set (selectValue s) \<and> mode p = Single \<longrightarrow>
            handleKeyboardEvent p s ENTER =
              (s\<lparr>popupVisible := False, activeKey := JUndefined, selectValue := [ol ! i]\<rparr>,
               [OnVisibleChange False,
                OnChange (if labelInValue p then ArgObj (ol ! i) else ArgKey (key (ol ! i)))])) \<and>
         (activeKey s \<notin> key ` set (selectValue s) \<and> mode p = Multiple \<longrightarrow>
            handleKeyboardEvent p s ENTER = (s\<lparr>selectValue := selectValue s @ [ol ! i]\<rparr>, [])) \<and>
         (activeKey s \<in> key ` set (selectValue s) \<longrightarrow>
            handleKeyboardEvent p s ENTER = (s, []))"
proof -
  from assms(2) have ne: "ol \<noteq> []" by (auto simp: resolvesAt_def)
  have hk: "handleKeyboardEvent p s ENTER = enterKey p s ol"
    using ne assms(1) by (auto simp: handleKeyboardEvent_def Let_def)
  note fi = resolvesAt_findIndex[OF assms(2)]
  show ?thesis
    unfolding hk
    by (simp add: enterKey_def Let_def fi find_key_None_iff changeVisibleState_close)
qed

text \<open>The theorem at the sample component, in both modes and at a selected option.\<close>

theorem enter_key_witness:
  "keyboardOptionList singleProps (openState [selA] [] (JStr ''b'')) = [selA, selB] \<and>
   resolvesAt (JStr ''b'') [selA, selB] 1 \<and>
   handleKeyboardEvent singleProps (openState [selA] [] (JStr ''b'')) ENTER =
     (\<lparr>searchValue = [], selectValue = [selB], selectValueForMultiplePanel = [],
       popupVisible = False, activeKey = JUndefined\<rparr>,
      [OnVisibleChange False, OnChange (ArgKey (JStr ''b''))]) \<and>
   handleKeyboardEvent multipleProps (openState [selA] [] (JStr ''b'')) ENTER =
     (openState [selA, selB] [] (JStr ''b''), []) \<and>
   handleKeyboardEvent multipleProps (openState [selA, selB] [] (JStr ''b'')) ENTER =
     (openState [selA, selB] [] (JStr ''b''), [])"
  using enter_key[of _ singleProps "openState [selA] [] (JStr ''b'')" 1, OF refl]
    enter_key[of _ multipleProps "openState [selA] [] (JStr ''b'')" 1, OF refl]
    enter_key[of _ multipleProps "openState [selA, selB] [] (JStr ''b'')" 1, OF refl]
  by (simp add: handleKeyboardEvent_def keyboardOptionList_def enterKey_def changeVisibleState_def
      Let_def resolvesAt_def multipleProps_def singleProps_def sampleChildren_def
      optA_def optB_def optC_def openState_def selA_def selB_def notDisabled_def selectOption_def)

text \<open>
  Claim C8, as the code has it. Every action that neither changes the search text nor
  opens the popup keeps the invariant that ActiveKey is absent or the key of an option of
  the filtered, non-disabled list; an arrow key on a non-empty list establishes it, with a
  key of that list; and that list holds only options that pass the search filter and are
  not disabled. A change of the search text leaves ActiveKey as it is, and opening the
  popup sets it to the selected key (single mode) or to the first non-disabled option of
  the catalog (\<open>defaultActiveFirstOption\<close>), so ActiveKey can then stand outside the
  list; on such a key Enter does nothing, and an arrow key on a non-empty list moves
  ActiveKey to the first listed option.
\<close>

theorem activeKey_listed:
  "(activeKeyListed p s \<and> keepsFilter a \<longrightarrow> activeKeyListed p (fst (step p s a))) \<and>
   (keyboardOptionList p s \<noteq> [] \<and> (kc = UP \<or> kc = DOWN) \<longrightarrow>
      activeKeyListed p (fst (step p s (KeyDown kc))) \<and>
      activeKey (fst (step p s (KeyDown kc))) \<in> key ` set (keyboardOptionList p s)) \<and>
   set (keyboardOptionList p s) =
     selectOption ` {c \<in> set (optionsOf (children p)). passesSearch p s c \<and> \<not> opt_disabled c} \<and>
   step p s (SearchInput sv) = (s\<lparr>searchValue := sv\<rparr>, [OnSearch sv]) \<and>
   step p s ClearSearch = (s\<lparr>searchValue := []\<rparr>, [OnSearch []]) \<and>
   activeKey (fst (step p s (SearchInput sv))) = activeKey s \<and>
   activeKey (fst (step p s ClearSearch)) = activeKey s \<and>
   step p s (TriggerVisible True) =
     (s\<lparr>popupVisible := True, activeKey := openActiveKey p s\<rparr>, [OnVisibleChange True]) \<and>
   (activeKey s \<notin> key ` set (keyboardOptionList p s) \<longrightarrow>
      step p s (KeyDown ENTER) = (s, [])) \<and>
   (keyboardOptionList p s \<noteq> [] \<and> activeKey s \<notin> key ` set (keyboardOptionList p s) \<and>
    (kc = UP \<or> kc = DOWN) \<longrightarrow>
      step p s (KeyDown kc) = (s\<lparr>activeKey := key (hd (keyboardOptionList p s))\<rparr>, []))"
proof -
  have A: "activeKeyListed p (fst (step p s a))" if l: "activeKeyListed p s" and k: "keepsFilter a"
  proof (cases a)
    case (OptionClick obj c)
    then show ?thesis using click_listed[OF l] by simp
  next
    case (KeyDown k)
    then show ?thesis using keyboard_listed[OF l] by simp
  next
    case (SearchInput sv)
    with k show ?thesis by simp
  next
    case ClearSearch
    with k show ?thesis by simp
  next
    case (TriggerVisible vis)
    with k have "\<not> vis" by simp
    with TriggerVisible show ?thesis
      by (intro listed_step[OF l])
         (simp_all add: visibleChangeFromTrigger_def changeVisibleState_close Let_def)
  next
    case SelectAll
    then show ?thesis by (intro listed_step[OF l]) (simp_all add: selectAllOption_def)
  next
    case ClearSingle
    then show ?thesis
      by (intro listed_step[OF l]) (simp_all add: emptySelectValue_def changeVisibleState_close Let_def)
  next
    case Cancel
    then show ?thesis
      by (intro listed_step[OF l]) (simp_all add: handleCancelSelect_def changeVisibleState_close Let_def)
  next
    case Confirm
    then show ?thesis
      by (intro listed_step[OF l]) (simp_all add: handleConfirmSelect_def changeVisibleState_close Let_def)
  qed
  have B: "activeKeyListed p (fst (step p s (KeyDown kc))) \<and>
           activeKey (fst (step p s (KeyDown kc))) \<in> key ` set (keyboardOptionList p s)"
    if ne: "keyboardOptionList p s \<noteq> []" and ud: "kc = UP \<or> kc = DOWN"
    using arrow_listed[OF ne ud] by (simp add: activeKeyListed_def)
  have C: "set (keyboardOptionList p s) =
     selectOption ` {c \<in> set (optionsOf (children p)). passesSearch p s c \<and> \<not> opt_disabled c}"
    by (simp add: keyboardOptionList_flat)
  have D: "step p s (SearchInput sv) = (s\<lparr>searchValue := sv\<rparr>, [OnSearch sv]) \<and>
           step p s ClearSearch = (s\<lparr>searchValue := []\<rparr>, [OnSearch []]) \<and>
           activeKey (fst (step p s (SearchInput sv))) = activeKey s \<and>
           activeKey (fst (step p s ClearSearch)) = activeKey s"
    by (simp add: updateSearchValue_def emptySearchValue_def)
  have E: "step p s (TriggerVisible True) =
     (s\<lparr>popupVisible := True, activeKey := openActiveKey p s\<rparr>, [OnVisibleChange True])"
    by (simp add: trigger_open)
  have F: "step p s (KeyDown ENTER) = (s, [])"
    if "activeKey s \<notin> key ` set (keyboardOptionList p s)"
    using enter_stale[OF that] by simp
  have G: "step p s (KeyDown kc) = (s\<lparr>activeKey := key (hd (keyboardOptionList p s))\<rparr>, [])"
    if "keyboardOptionList p s \<noteq> []" "activeKey s \<notin> key ` set (keyboardOptionList p s)"
      "kc = UP \<or> kc = DOWN"
    using arrow_stale[OF that] by simp
  from A B C D E F G show ?thesis by blast
qed

text \<open>The theorem at the sample component: an arrow key and an option click from a
  state that satisfies the invariant; Enter, the arrows and a search text at the stale
  key \<open>c\<close>; and the three ways opening the popup sets ActiveKey.\<close>

theorem activeKey_listed_witness:
  "activeKeyListed singleProps (openState [] [] (JStr ''a'')) \<and>
   keepsFilter (KeyDown DOWN) \<and>
   keyboardOptionList singleProps (openState [] [] (JStr ''a'')) = [selA, selB] \<and>
   fst (step singleProps (openState [] [] (JStr ''a'')) (KeyDown DOWN)) = openState [] [] (JStr ''b'') \<and>
   activeKeyListed singleProps (openState [] [] (JStr ''b'')) \<and>
   keepsFilter (OptionClick selB False) \<and>
   activeKeyListed singleProps (fst (step singleProps (openState [] [] (JStr ''a'')) (OptionClick selB False))) \<and>
   JStr ''c'' \<notin> key ` set (keyboardOptionList singleProps (openState [selC] [] (JStr ''c''))) \<and>
   step singleProps (openState [selC] [] (JStr ''c'')) (KeyDown ENTER) =
     (openState [selC] [] (JStr ''c''), []) \<and>
   step singleProps (openState [selC] [] (JStr ''c'')) (KeyDown UP) =
     (openState [selC] [] (JStr ''a''), []) \<and>
   step singleProps (openState [selC] [] (JStr ''c'')) (KeyDown DOWN) =
     (openState [selC] [] (JStr ''a''), []) \<and>
   step singleProps (openState [selC] [] (JStr ''c'')) (SearchInput ''B'') =
     (\<lparr>searchValue = ''B'', selectValue = [selC], selectValueForMultiplePanel = [],
       popupVisible = True, activeKey = JStr ''c''\<rparr>, [OnSearch ''B'']) \<and>
   openActiveKey singleProps (openState [selC] [] JUndefined) = JStr ''c'' \<and>
   step singleProps (openState [selC] [] JUndefined) (TriggerVisible True) =
     (openState [selC] [] (JStr ''c''), [OnVisibleChange True]) \<and>
   openActiveKey (multipleProps\<lparr>defaultActiveFirstOption := True\<rparr>) (openState [selC] [] JUndefined) =
     JStr ''a'' \<and>
   step (multipleProps\<lparr>defaultActiveFirstOption := True\<rparr>) (openState [selC] [] JUndefined)
       (TriggerVisible True) =
     (openState [selC] [] (JStr ''a''), [OnVisibleChange True]) \<and>
   step multipleProps (openState [selC] [] (JStr ''b'')) (TriggerVisible True) =
     (openState [selC] [] (JStr ''b''), [OnVisibleChange True])"
  using activeKey_listed[of singleProps "openState [] [] (JStr ''a'')" "KeyDown DOWN" DOWN,
      THEN conjunct1]
    activeKey_listed[of singleProps "openState [] [] (JStr ''a'')" "OptionClick selB False" UP,
      THEN conjunct2, THEN conjunct1]
    activeKey_listed[of singleProps "openState [] [] (JStr ''a'')" "OptionClick selB False" UP,
      THEN conjunct1]
    activeKey_listed[of singleProps "openState [selC] [] (JStr ''c'')" "KeyDown UP" UP "''B''",
      THEN conjunct2, THEN conjunct2, THEN conjunct2]
    activeKey_listed[of singleProps "openState [selC] [] (JStr ''c'')" "KeyDown DOWN" DOWN "''B''",
      THEN conjunct2, THEN conjunct2, THEN conjunct2]
    activeKey_listed[of singleProps "openState [selC] [] JUndefined" "KeyDown DOWN" DOWN "''B''",
      THEN conjunct2, THEN conjunct2, THEN conjunct2]
    activeKey_listed[of "multipleProps\<lparr>defaultActiveFirstOption := True\<rparr>"
      "openState [selC] [] JUndefined" "KeyDown DOWN" DOWN "''B''",
      THEN conjunct2, THEN conjunct2, THEN conjunct2]
    activeKey_listed[of multipleProps "openState [selC] [] (JStr ''b'')" "KeyDown DOWN" DOWN "''B''",
      THEN conjunct2, THEN conjunct2, THEN conjunct2]
  by (simp add: activeKeyListed_def handleKeyboardEvent_def keyboardOptionList_def arrowKey_def
      enterKey_def onOptionClick_def changeVisibleState_def visibleChangeFromTrigger_def
      updateSearchValue_def emptySearchValue_def openActiveKey_def nonDisabledCatalog_def Let_def
      multipleProps_def singleProps_def sampleChildren_def optA_def optB_def optC_def
      openState_def selA_def selB_def selC_def notDisabled_def selectOption_def)

text \<open>
  The invariant does not hold in every reachable state. Opening the popup in single mode
  sets ActiveKey to the key of the selected option, here the disabled \<open>c\<close>; and a search
  text typed after ActiveKey was set leaves ActiveKey on an option the search filters
  out, here \<open>a\<close> under the search text \<open>B\<close>.
\<close>

theorem activeKey_can_leave_list:
  "initialState (singleProps\<lparr>value_prop := Some (JStr ''c'')\<rparr>) =
     Inr \<lparr>searchValue = [], selectValue = [selC], selectValueForMultiplePanel = [selC],
          popupVisible = False, activeKey = JUndefined\<rparr> \<and>
   run (singleProps\<lparr>value_prop := Some (JStr ''c'')\<rparr>)
       \<lparr>searchValue = [], selectValue = [selC], selectValueForMultiplePanel = [selC],
        popupVisible = False, activeKey = JUndefined\<rparr> [TriggerVisible True] =
     openState [selC] [selC] (JStr ''c'') \<and>
   keyboardOptionList (singleProps\<lparr>value_prop := Some (JStr ''c'')\<rparr>)
       (openState [selC] [selC] (JStr ''c'')) = [selA, selB] \<and>
   \<not> activeKeyListed (singleProps\<lparr>value_prop := Some (JStr ''c'')\<rparr>)
       (openState [selC] [selC] (JStr ''c'')) \<and>
   initialState (singleProps\<lparr>filterOption := FilterFun labelStartsWith\<rparr>) =
     Inr \<lparr>searchValue = [], selectValue = [], selectValueForMultiplePanel = [],
          popupVisible = False, activeKey = JUndefined\<rparr> \<and>
   run (singleProps\<lparr>filterOption := FilterFun labelStartsWith\<rparr>)
       \<lparr>searchValue = [], selectValue = [], selectValueForMultiplePanel = [],
        popupVisible = False, activeKey = JUndefined\<rparr>
       [TriggerVisible True, KeyDown DOWN, SearchInput ''B''] =
     \<lparr>searchValue = ''B'', selectValue = [], selectValueForMultiplePanel = [],
      popupVisible = True, activeKey = JStr ''a''\<rparr> \<and>
   keyboardOptionList (singleProps\<lparr>filterOption := FilterFun labelStartsWith\<rparr>)
       \<lparr>searchValue = ''B'', selectValue = [], selectValueForMultiplePanel = [],
        popupVisible = True, activeKey = JStr ''a''\<rparr> = [selB] \<and>
   \<not> activeKeyListed (singleProps\<lparr>filterOption := FilterFun labelStartsWith\<rparr>)
       \<lparr>searchValue = ''B'', selectValue = [], selectValueForMultiplePanel = [],
        popupVisible = True, activeKey = JStr ''a''\<rparr>"
  by (simp add: initialState_def getValueFromProps_def resolveKey_def foundLabel_def
      foundTitle_def js_or_def activeKeyListed_def handleKeyboardEvent_def keyboardOptionList_def
      arrowKey_def visibleChangeFromTrigger_def updateSearchValue_def changeVisibleState_def
      labelStartsWith_def Let_def
      singleProps_def sampleChildren_def optA_def optB_def optC_def openState_def
      selA_def selB_def selC_def notDisabled_def selectOption_def)

section \<open>The contract of value normalization\<close>

text \<open>
  Claim C7, as the code has it. Value normalization returns a selection for every value
  whose shape fits \<open>labelInValue\<close>. Without \<open>labelInValue\<close>, a string or a number is
  treated as the array that holds it, an array of any length yields the entry of each of
  its keys in order, and \<open>undefined\<close>, \<open>null\<close> and \<open>false\<close> yield the empty selection; a
  key that resolves takes the label (when it is truthy) and the title of the first catalog
  entry with that key, and a key that does not resolve yields an entry whose label is the
  key. With \<open>labelInValue\<close>, an object is treated as the array that holds it, an array of
  objects yields the entry of each object in order, and a value that is neither an array
  nor an object yields the empty selection; the label and title an object carries come
  before those of the catalog, and an unresolved key yields the carried label, or else
  the key.
\<close>

theorem value_normalization:
  assumes "catalog = map selectOption (optionsOf cs)"
  shows "(wellShaped liv v \<longrightarrow> (\<exists>sel. getValueFromProps v liv cs = Inr sel)) \<and>
         ((\<exists>t. v = JStr t) \<or> (\<exists>n. v = JNum n) \<longrightarrow>
            getValueFromProps v False cs = getValueFromProps (JArr [v]) False cs) \<and>
         getValueFromProps (JObj fs) True cs = getValueFromProps (JArr [JObj fs]) True cs \<and>
         (\<exists>sel. getValueFromProps (JArr ks) False cs = Inr sel \<and> map key sel = ks) \<and>
         (find (\<lambda>option. key option = k) catalog = Some found \<longrightarrow>
            getValueFromProps (JArr [k]) False cs =
              Inr [\<lparr>key = k, label = js_or (label found) k, title = title found\<rparr>]) \<and>
         (k \<notin> key ` set catalog \<longrightarrow>
            getValueFromProps (JArr [k]) False cs = Inr [\<lparr>key = k, label = k, title = JUndefined\<rparr>]) \<and>
         (field fs ''key'' \<notin> key ` set catalog \<longrightarrow>
            getValueFromProps (JObj fs) True cs =
              Inr [\<lparr>key = field fs ''key'',
                    label = js_or (field fs ''label'') (field fs ''key''),
                    title = js_or (field fs ''title'') JUndefined\<rparr>]) \<and>
         getValueFromProps (JArr ks) False cs = Inr (map (keyEntry catalog) ks) \<and>
         ((\<exists>t. v = JStr t) \<or> (\<exists>n. v = JNum n) \<longrightarrow>
            getValueFromProps v False cs = Inr [keyEntry catalog v]) \<and>
         (v = JUndefined \<or> v = JNull \<or> v = JBool False \<longrightarrow>
            getValueFromProps v False cs = Inr []) \<and>
         getValueFromProps (JArr (map JObj fss)) True cs = Inr (map (objEntry catalog) fss) \<and>
         getValueFromProps (JObj fs) True cs = Inr [objEntry catalog fs] \<and>
         ((\<forall>xs. v \<noteq> JArr xs) \<and> (\<forall>gs. v \<noteq> JObj gs) \<longrightarrow>
            getValueFromProps v True cs = Inr [])"
proof -
  have a: "wellShaped liv v \<Longrightarrow> \<exists>sel. getValueFromProps v liv cs = Inr sel"
    by (rule normalize_total)
  have b: "(\<exists>t. v = JStr t) \<or> (\<exists>n. v = JNum n) \<Longrightarrow>
            getValueFromProps v False cs = getValueFromProps (JArr [v]) False cs"
    by (auto simp: getValueFromProps_def Let_def)
  have c: "getValueFromProps (JObj fs) True cs = getValueFromProps (JArr [JObj fs]) True cs"
    by (simp add: getValueFromProps_def Let_def resolveObj_JObj)
  have d: "\<exists>sel. getValueFromProps (JArr ks) False cs = Inr sel \<and> map key sel = ks"
    unfolding normalize_keys using key_resolveKey[of "map selectOption (optionsOf cs)" ks] by blast
  have e: "find (\<lambda>option. key option = k) catalog = Some found \<Longrightarrow>
            getValueFromProps (JArr [k]) False cs =
              Inr [\<lparr>key = k, label = js_or (label found) k, title = title found\<rparr>]"
    unfolding assms by (simp add: normalize_keys resolveKey_def Let_def foundLabel_def foundTitle_def)
  have f: "getValueFromProps (JArr [k]) False cs = Inr [\<lparr>key = k, label = k, title = JUndefined\<rparr>]"
    if "k \<notin> key ` set catalog"
  proof -
    from that have "find (\<lambda>option. key option = k) (map selectOption (optionsOf cs)) = None"
      unfolding assms by (simp add: find_key_None_iff)
    then show ?thesis
      by (simp add: normalize_keys resolveKey_def Let_def foundLabel_def foundTitle_def js_or_def)
  qed
  have g: "getValueFromProps (JObj fs) True cs =
              Inr [\<lparr>key = field fs ''key'',
                    label = js_or (field fs ''label'') (field fs ''key''),
                    title = js_or (field fs ''title'') JUndefined\<rparr>]"
    if "field fs ''key'' \<notin> key ` set catalog"
  proof -
    from that have
      "find (\<lambda>option. key option = field fs ''key'') (map selectOption (optionsOf cs)) = None"
      unfolding assms by (simp add: find_key_None_iff)
    then show ?thesis
      by (simp add: getValueFromProps_def allOptions_flat resolveObj_JObj Let_def foundLabel_def
          foundTitle_def js_or_def)
  qed
  have h: "getValueFromProps (JArr ks) False cs = Inr (map (keyEntry catalog) ks)"
    unfolding assms by (rule normalize_key_array)
  have i: "(\<exists>t. v = JStr t) \<or> (\<exists>n. v = JNum n) \<Longrightarrow>
            getValueFromProps v False cs = Inr [keyEntry catalog v]"
    unfolding assms by (rule normalize_scalar)
  have j: "v = JUndefined \<or> v = JNull \<or> v = JBool False \<Longrightarrow>
            getValueFromProps v False cs = Inr []"
    by (rule normalize_absent)
  have k: "getValueFromProps (JArr (map JObj fss)) True cs = Inr (map (objEntry catalog) fss)"
    unfolding assms by (rule normalize_object_array)
  have l: "getValueFromProps (JObj fs) True cs = Inr [objEntry catalog fs]"
    unfolding assms by (rule normalize_object)
  have m: "getValueFromProps v True cs = Inr []"
    if "(\<forall>xs. v \<noteq> JArr xs) \<and> (\<forall>gs. v \<noteq> JObj gs)"
    using that by (cases v) (simp_all add: normalize_other)
  from a b c d e f g h i j k l m show ?thesis by blast
qed

text \<open>The theorem at the catalog of the sample component, for the keys it holds and
  the key \<open>z\<close> it does not, in arrays of one, three and four elements.\<close>

theorem value_normalization_witness:
  "wellShaped False (JStr ''a'') \<and>
   getValueFromProps (JStr ''a'') False sampleChildren = Inr [selA] \<and>
   getValueFromProps (JArr [JStr ''a'']) False sampleChildren = Inr [selA] \<and>
   find (\<lambda>option. key option = JStr ''a'') (map selectOption (optionsOf sampleChildren)) = Some selA \<and>
   JStr ''z'' \<notin> key ` set (map selectOption (optionsOf sampleChildren)) \<and>
   getValueFromProps (JArr [JStr ''z'']) False sampleChildren =
     Inr [\<lparr>key = JStr ''z'', label = JStr ''z'', title = JUndefined\<rparr>] \<and>
   wellShaped True (JObj [(''key'', JStr ''z''), (''label'', JStr ''L'')]) \<and>
   getValueFromProps (JObj [(''key'', JStr ''z''), (''label'', JStr ''L'')]) True sampleChildren =
     Inr [\<lparr>key = JStr ''z'', label = JStr ''L'', title = JUndefined\<rparr>] \<and>
   getValueFromProps (JArr [JObj [(''key'', JStr ''z''), (''label'', JStr ''L'')]]) True sampleChildren =
     Inr [\<lparr>key = JStr ''z'', label = JStr ''L'', title = JUndefined\<rparr>] \<and>
   getValueFromProps (JArr [JStr ''b'', JStr ''z'', JStr ''a'', JStr ''c'']) False sampleChildren =
     Inr [selB, \<lparr>key = JStr ''z'', label = JStr ''z'', title = JUndefined\<rparr>, selA, selC] \<and>
   getValueFromProps (JArr (map JObj [[(''key'', JStr ''b'')],
        [(''key'', JStr ''a''), (''label'', JStr ''L'')], [(''key'', JStr ''z'')]])) True sampleChildren =
     Inr [selB, \<lparr>key = JStr ''a'', label = JStr ''L'', title = JStr ''first''\<rparr>,
          \<lparr>key = JStr ''z'', label = JStr ''z'', title = JUndefined\<rparr>] \<and>
   getValueFromProps JNull False sampleChildren = Inr [] \<and>
   getValueFromProps (JNum 7) True sampleChildren = Inr []"
  using value_normalization[of "map selectOption (optionsOf sampleChildren)" sampleChildren
      False "JStr ''a''" "[(''key'', JStr ''z''), (''label'', JStr ''L'')]" "[JStr ''a'']"
      "JStr ''a''" selA "[]", OF refl]
    value_normalization[of "map selectOption (optionsOf sampleChildren)" sampleChildren
      True "JObj [(''key'', JStr ''z''), (''label'', JStr ''L'')]"
      "[(''key'', JStr ''z''), (''label'', JStr ''L'')]" "[JStr ''z'']"
      "JStr ''z''" selA "[]", OF refl]
    value_normalization[of "map selectOption (optionsOf sampleChildren)" sampleChildren
      False JNull "[]" "[JStr ''b'', JStr ''z'', JStr ''a'', JStr ''c'']" JNull selA
      "[[(''key'', JStr ''b'')], [(''key'', JStr ''a''), (''label'', JStr ''L'')], [(''key'', JStr ''z'')]]",
      OF refl]
    value_normalization[of "map selectOption (optionsOf sampleChildren)" sampleChildren
      True "JNum 7" "[]" "[]" JNull selA "[]", OF refl]
  by (simp add: getValueFromProps_def resolveKey_def resolveObj_def foundLabel_def foundTitle_def
      js_or_def wellShaped_def field_def keyEntry_def objEntry_def Let_def
      sampleChildren_def optA_def optB_def optC_def selA_def selB_def selC_def selectOption_def)

text \<open>
  The function is not uniform over every external value. With \<open>labelInValue\<close> a raw key
  yields the empty selection, not a one-element one, and an unresolved object keeps the
  label it carries, not the raw key. Without \<open>labelInValue\<close> an object has no \<open>map\<close>
  method and the call throws, as does reading a property of a \<open>null\<close> array element
  with \<open>labelInValue\<close>.
\<close>

theorem value_normalization_fails:
  "getValueFromProps (JStr ''a'') True sampleChildren = Inr [] \<and>
   getValueFromProps (JObj [(''key'', JStr ''z''), (''label'', JStr ''L'')]) True sampleChildren =
     Inr [\<lparr>key = JStr ''z'', label = JStr ''L'', title = JUndefined\<rparr>] \<and>
   JStr ''L'' \<noteq> JStr ''z'' \<and>
   getValueFromProps (JObj [(''key'', JStr ''a'')]) False sampleChildren = Inl TypeError \<and>
   getValueFromProps (JArr [JNull]) True sampleChildren = Inl TypeError"
  by (simp add: getValueFromProps_def resolveObj_def foundLabel_def foundTitle_def
      js_or_def Let_def sampleChildren_def optA_def optB_def optC_def selectOption_def)

end
